theory Spec2Isabelle
  imports Main "HOL-Library.AList" "HOL-Library.Sublist"
begin

text \<open>
  A shallow embedding of \<open>Cover_Image_extractor.py\<close>: the loop over the input files, the
  EPUB cover locator with its two extraction paths, the TXT cover synthesiser and the PDF
  branch. The functions of the script are translated line by line; what they call in the
  standard library is either embedded from its CPython source (\<open>posixpath\<close>, the string
  methods, the ElementPath queries, the dictionary) or, for parsers, codecs and rasterisers,
  taken as a parameter of the environment.
\<close>

section \<open>Python string primitives\<close>

text \<open>
  File names, archive member names, XML names and attribute values and \<open>bytes\<close> are
  modelled as HOL strings: a character is one of the first 256 code points. The text of a
  TXT file is a list of code points of any size.
\<close>

type_synonym bytes = string

type_synonym ustr = "nat list"

text \<open>\<open>str.lower\<close>: among the first 256 code points the cased capitals are \<open>A\<close> to \<open>Z\<close>,
  \<open>0xC0\<close> to \<open>0xD6\<close> and \<open>0xD8\<close> to \<open>0xDE\<close>; each is lowered to the code point 32
  above it.\<close>

definition lower_char :: "char \<Rightarrow> char" where
  "lower_char c =
     (case map_of
             (zip (''ABCDEFGHIJKLMNOPQRSTUVWXYZ''
                   @ [CHR 0xC0, CHR 0xC1, CHR 0xC2, CHR 0xC3, CHR 0xC4, CHR 0xC5, CHR 0xC6, CHR 0xC7,
                      CHR 0xC8, CHR 0xC9, CHR 0xCA, CHR 0xCB, CHR 0xCC, CHR 0xCD, CHR 0xCE, CHR 0xCF,
                      CHR 0xD0, CHR 0xD1, CHR 0xD2, CHR 0xD3, CHR 0xD4, CHR 0xD5, CHR 0xD6,
                      CHR 0xD8, CHR 0xD9, CHR 0xDA, CHR 0xDB, CHR 0xDC, CHR 0xDD, CHR 0xDE])
                  (''abcdefghijklmnopqrstuvwxyz''
                   @ [CHR 0xE0, CHR 0xE1, CHR 0xE2, CHR 0xE3, CHR 0xE4, CHR 0xE5, CHR 0xE6, CHR 0xE7,
                      CHR 0xE8, CHR 0xE9, CHR 0xEA, CHR 0xEB, CHR 0xEC, CHR 0xED, CHR 0xEE, CHR 0xEF,
                      CHR 0xF0, CHR 0xF1, CHR 0xF2, CHR 0xF3, CHR 0xF4, CHR 0xF5, CHR 0xF6,
                      CHR 0xF8, CHR 0xF9, CHR 0xFA, CHR 0xFB, CHR 0xFC, CHR 0xFD, CHR 0xFE])) c of
        None \<Rightarrow> c
      | Some d \<Rightarrow> d)"

definition lower :: "string \<Rightarrow> string" where
  "lower s = map lower_char s"

definition startswith :: "string \<Rightarrow> string \<Rightarrow> bool" where
  "startswith s p = (take (length p) s = p)"

definition endswith :: "string \<Rightarrow> string \<Rightarrow> bool" where
  "endswith s p = (length p \<le> length s \<and> drop (length s - length p) s = p)"

text \<open>\<open>contains sub s\<close> is Python's \<open>sub in s\<close> on strings.\<close>

fun contains :: "string \<Rightarrow> string \<Rightarrow> bool" where
  "contains sub [] = (sub = [])"
| "contains sub (c # cs) = (startswith (c # cs) sub \<or> contains sub cs)"

text \<open>\<open>s.rfind(c)\<close> for a one-character \<open>c\<close>: the last index of \<open>c\<close>, or \<open>-1\<close>.\<close>

primrec rfind :: "char \<Rightarrow> string \<Rightarrow> int" where
  "rfind c [] = - 1"
| "rfind c (x # xs) =
     (let r = rfind c xs in if 0 \<le> r then r + 1 else if x = c then 0 else - 1)"

fun split_on :: "'a \<Rightarrow> 'a list \<Rightarrow> 'a list list" where
  "split_on c [] = [[]]"
| "split_on c (x # xs) =
     (if x = c then [] # split_on c xs
      else (case split_on c xs of [] \<Rightarrow> [[x]] | w # ws \<Rightarrow> (x # w) # ws))"

fun join_with :: "'a list \<Rightarrow> 'a list list \<Rightarrow> 'a list" where
  "join_with sep [] = []"
| "join_with sep [x] = x"
| "join_with sep (x # y # ys) = x @ sep @ join_with sep (y # ys)"

definition lstrip_char :: "char \<Rightarrow> string \<Rightarrow> string" where
  "lstrip_char c s = dropWhile (\<lambda>x. x = c) s"

definition rstrip_char :: "'a \<Rightarrow> 'a list \<Rightarrow> 'a list" where
  "rstrip_char c s = rev (dropWhile (\<lambda>x. x = c) (rev s))"

definition strip_char :: "char \<Rightarrow> string \<Rightarrow> string" where
  "strip_char c s = rstrip_char c (lstrip_char c s)"

definition replace_char :: "char \<Rightarrow> char \<Rightarrow> string \<Rightarrow> string" where
  "replace_char a b s = map (\<lambda>x. if x = a then b else x) s"

section \<open>\<open>os.path\<close> (the POSIX flavour)\<close>

text \<open>\<open>has_non_dot\<close> is the \<open>while filenameIndex < dotIndex\<close> loop of \<open>genericpath._splitext\<close>,
  run over the slice between the last separator and the last dot.\<close>

fun has_non_dot :: "string \<Rightarrow> bool" where
  "has_non_dot [] = False"
| "has_non_dot (c # cs) = (if c \<noteq> CHR ''.'' then True else has_non_dot cs)"

definition splitext :: "string \<Rightarrow> string \<times> string" where
  "splitext p =
     (let sepIndex = rfind CHR ''/'' p;
          dotIndex = rfind CHR ''.'' p
      in if dotIndex > sepIndex \<and>
            has_non_dot (take (nat (dotIndex - (sepIndex + 1))) (drop (nat (sepIndex + 1)) p))
         then (take (nat dotIndex) p, drop (nat dotIndex) p)
         else (p, []))"

definition basename :: "string \<Rightarrow> string" where
  "basename p = drop (nat (rfind CHR ''/'' p + 1)) p"

definition dirname :: "string \<Rightarrow> string" where
  "dirname p =
     (let head = take (nat (rfind CHR ''/'' p + 1)) p
      in if head \<noteq> [] \<and> head \<noteq> replicate (length head) CHR ''/''
         then rstrip_char CHR ''/'' head else head)"

text \<open>\<open>os.path.join(a, b)\<close> with exactly two arguments, as the extractor calls it.\<close>

definition path_join :: "string \<Rightarrow> string \<Rightarrow> string" where
  "path_join a b =
     (if startswith b ''/'' then b
      else if a = [] \<or> endswith a ''/'' then a @ b
      else a @ ''/'' @ b)"

text \<open>The component loop of \<open>posixpath.normpath\<close>; \<open>new_comps\<close> is the accumulator.\<close>

fun norm_comps :: "nat \<Rightarrow> string list \<Rightarrow> string list \<Rightarrow> string list" where
  "norm_comps initial_slashes [] new_comps = new_comps"
| "norm_comps initial_slashes (cmp # comps) new_comps =
     (if cmp = [] \<or> cmp = ''.'' then norm_comps initial_slashes comps new_comps
      else if cmp \<noteq> ''..'' \<or> (initial_slashes = 0 \<and> new_comps = [])
              \<or> (new_comps \<noteq> [] \<and> last new_comps = ''..'')
      then norm_comps initial_slashes comps (new_comps @ [cmp])
      else if new_comps \<noteq> [] then norm_comps initial_slashes comps (butlast new_comps)
      else norm_comps initial_slashes comps new_comps)"

definition normpath :: "string \<Rightarrow> string" where
  "normpath path =
     (if path = [] then ''.''
      else
        let initial_slashes =
              (if startswith path ''/''
               then (if startswith path ''//'' \<and> \<not> startswith path ''///'' then 2 else 1)
               else (0::nat));
            comps = norm_comps initial_slashes (split_on CHR ''/'' path) [];
            joined = join_with ''/'' comps;
            res = (if initial_slashes \<noteq> 0
                   then replicate initial_slashes CHR ''/'' @ joined else joined)
        in if res = [] then ''.'' else res)"

section \<open>Exceptions\<close>

datatype exn =
    KeyError string
  | ValueError string
  | AttributeError string
  | TypeError string
  | IndexError string
  | OSError string
  | LibError string

fun exn_str :: "exn \<Rightarrow> string" where
  "exn_str (KeyError m) = m"
| "exn_str (ValueError m) = m"
| "exn_str (AttributeError m) = m"
| "exn_str (TypeError m) = m"
| "exn_str (IndexError m) = m"
| "exn_str (OSError m) = m"
| "exn_str (LibError m) = m"

section \<open>XML element trees (\<open>xml.etree.ElementTree\<close>)\<close>

datatype element = Element (tag: string) (attrib: "(string \<times> string) list") (children: "element list")

definition attrib_get :: "element \<Rightarrow> string \<Rightarrow> string option" where
  "attrib_get e k = map_of (attrib e) k"

definition attrib_get_default :: "element \<Rightarrow> string \<Rightarrow> string \<Rightarrow> string" where
  "attrib_get_default e k d = (case attrib_get e k of None \<Rightarrow> d | Some v \<Rightarrow> v)"

text \<open>\<open>Element.iter()\<close>: the element itself and then its descendants, in document order.\<close>

fun iter :: "element \<Rightarrow> element list" where
  "iter (Element t a cs) = Element t a cs # concat (map iter cs)"

definition descendants :: "element \<Rightarrow> element list" where
  "descendants e = concat (map iter (children e))"

text \<open>
  \<open>root.findall('.//A/B')\<close>: ElementPath first selects every proper descendant of the root
  tagged \<open>A\<close> (in document order) and then, for each of them, its children tagged \<open>B\<close>.
\<close>

definition findall_desc_child :: "element \<Rightarrow> string \<Rightarrow> string \<Rightarrow> element list" where
  "findall_desc_child root a b =
     concat (map (\<lambda>m. filter (\<lambda>c. tag c = b) (children m))
                 (filter (\<lambda>e. tag e = a) (descendants root)))"

text \<open>\<open>root.find('.//{*}name')\<close>: the first proper descendant whose tag is \<open>name\<close> in any
  namespace or in none; \<open>root.find('.//name')\<close>: the tag is exactly \<open>name\<close>.\<close>

definition find_desc_any_ns :: "element \<Rightarrow> string \<Rightarrow> element option" where
  "find_desc_any_ns root name =
     List.find (\<lambda>e. tag e = name \<or> endswith (tag e) (''}'' @ name)) (descendants root)"

definition find_desc :: "element \<Rightarrow> string \<Rightarrow> element option" where
  "find_desc root name = List.find (\<lambda>e. tag e = name) (descendants root)"

section \<open>Locating the cover in the package document\<close>

definition ns_tag :: "string \<Rightarrow> string \<Rightarrow> string" where
  "ns_tag t ns = (if ns \<noteq> [] then ''{'' @ ns @ ''}'' @ t else t)"

text \<open>\<open>tree.tag.split('}')[0].strip('{')\<close> when the root tag starts with a brace.\<close>

definition detect_ns :: "element \<Rightarrow> string" where
  "detect_ns tree =
     (if startswith (tag tree) ''{''
      then strip_char CHR ''{'' (takeWhile (\<lambda>c. c \<noteq> CHR ''}'') (tag tree))
      else [])"

text \<open>
  The manifest dictionary \<open>id -> (href, media-type, properties)\<close>. A Python dict iterates in
  the order in which keys were first inserted and a later assignment to an existing key
  replaces the value in place: this is \<open>AList.update\<close> on an association list.
\<close>

type_synonym manifest = "(string \<times> (string \<times> string \<times> string)) list"

fun build_manifest :: "element list \<Rightarrow> manifest \<Rightarrow> manifest" where
  "build_manifest [] manifest = manifest"
| "build_manifest (item # items) manifest =
     (let iid = attrib_get item ''id'';
          href = attrib_get item ''href'';
          mtype = attrib_get_default item ''media-type'' [];
          props = attrib_get_default item ''properties'' []
      in case (iid, href) of
           (Some i, Some h) \<Rightarrow>
             if i \<noteq> [] \<and> h \<noteq> []
             then build_manifest items (AList.update i (h, mtype, props) manifest)
             else build_manifest items manifest
         | _ \<Rightarrow> build_manifest items manifest)"

definition resolve_href :: "string \<Rightarrow> string \<Rightarrow> string" where
  "resolve_href rootfile_dir href = normpath (path_join rootfile_dir href)"

text \<open>Step 1: the loop over \<open>metadata/meta\<close> elements.\<close>

fun scan_meta :: "string \<Rightarrow> manifest \<Rightarrow> element list \<Rightarrow> string option" where
  "scan_meta rootfile_dir manifest [] = None"
| "scan_meta rootfile_dir manifest (meta # metas) =
     (if lower (attrib_get_default meta ''name'' []) = ''cover''
      then (case attrib_get meta ''content'' of
              None \<Rightarrow> scan_meta rootfile_dir manifest metas
            | Some cover_id \<Rightarrow>
                if cover_id \<noteq> []
                then (case map_of manifest cover_id of
                        Some (href, mtype, props) \<Rightarrow> Some (resolve_href rootfile_dir href)
                      | None \<Rightarrow> scan_meta rootfile_dir manifest metas)
                else scan_meta rootfile_dir manifest metas)
      else scan_meta rootfile_dir manifest metas)"

text \<open>Step 2: the first entry whose properties contain \<open>cover-image\<close>.\<close>

fun scan_cover_image :: "string \<Rightarrow> manifest \<Rightarrow> string option" where
  "scan_cover_image rootfile_dir [] = None"
| "scan_cover_image rootfile_dir ((iid, (href, mtype, props)) # rest) =
     (if contains ''cover-image'' props then Some (resolve_href rootfile_dir href)
      else scan_cover_image rootfile_dir rest)"

text \<open>Step 3: the first image entry with \<open>cover\<close> in its id or href.\<close>

fun scan_cover_name :: "string \<Rightarrow> manifest \<Rightarrow> string option" where
  "scan_cover_name rootfile_dir [] = None"
| "scan_cover_name rootfile_dir ((iid, (href, mtype, props)) # rest) =
     (if startswith mtype ''image/''
         \<and> (contains ''cover'' (lower iid) \<or> contains ''cover'' (lower href))
      then Some (resolve_href rootfile_dir href)
      else scan_cover_name rootfile_dir rest)"

text \<open>Step 4: the first image entry.\<close>

fun scan_first_image :: "string \<Rightarrow> manifest \<Rightarrow> string option" where
  "scan_first_image rootfile_dir [] = None"
| "scan_first_image rootfile_dir ((iid, (href, mtype, props)) # rest) =
     (if startswith mtype ''image/'' then Some (resolve_href rootfile_dir href)
      else scan_first_image rootfile_dir rest)"

definition items_of :: "element \<Rightarrow> element list" where
  "items_of tree =
     (let ns = detect_ns tree
      in findall_desc_child tree (ns_tag ''manifest'' ns) (ns_tag ''item'' ns))"

definition manifest_of :: "element \<Rightarrow> manifest" where
  "manifest_of tree = build_manifest (items_of tree) []"

definition metas_of :: "element \<Rightarrow> element list" where
  "metas_of tree =
     (let ns = detect_ns tree
      in findall_desc_child tree (ns_tag ''metadata'' ns) (ns_tag ''meta'' ns))"

text \<open>The body of \<open>_find_cover_href\<close> after \<open>ET.fromstring\<close> has produced the tree.\<close>

definition find_cover_href_tree :: "element \<Rightarrow> string \<Rightarrow> string option" where
  "find_cover_href_tree tree rootfile_dir =
     (let manifest = manifest_of tree
      in case scan_meta rootfile_dir manifest (metas_of tree) of
           Some r \<Rightarrow> Some r
         | None \<Rightarrow>
             (case scan_cover_image rootfile_dir manifest of
                Some r \<Rightarrow> Some r
              | None \<Rightarrow>
                  (case scan_cover_name rootfile_dir manifest of
                     Some r \<Rightarrow> Some r
                   | None \<Rightarrow> scan_first_image rootfile_dir manifest)))"

section \<open>The world: files, standard output and the libraries\<close>

text \<open>
  An image is its mode, its pixel size and the operations that produced its pixels.
  A file holds raw bytes or the PNG encoding of an image; \<open>save\<close> and \<open>open(..., 'wb')\<close>
  are taken to succeed.
\<close>

datatype draw_op = Source bytes | Fill string | DrawText "int \<times> int" ustr string | ConvertTo string

record image =
  img_mode :: string
  img_size :: "int \<times> int"
  img_ops :: "draw_op list"

datatype fdata = Bytes bytes | Png image

record world =
  files :: "string \<rightharpoonup> fdata"
  stdout :: "string list"

definition print :: "string \<Rightarrow> world \<Rightarrow> world" where
  "print s w = w\<lparr>stdout := stdout w @ [s]\<rparr>"

definition write_file :: "string \<Rightarrow> fdata \<Rightarrow> world \<Rightarrow> world" where
  "write_file p d w = w\<lparr>files := (files w)(p \<mapsto> d)\<rparr>"

text \<open>A zip archive is its list of entries; \<open>namelist\<close> keeps the order and duplicates,
  \<open>read\<close> looks a name up in the name table, where a later entry has replaced an earlier one.\<close>

type_synonym zipfile = "(string \<times> bytes) list"

definition namelist :: "zipfile \<Rightarrow> string list" where
  "namelist z = map fst z"

definition zip_read :: "zipfile \<Rightarrow> string \<Rightarrow> bytes option" where
  "zip_read z name = map_of (rev z) name"

text \<open>An item of an EbookLib book: \<open>item_content\<close> is the value of \<open>data\<close> after
  \<open>get_content()\<close> and its two attribute fallbacks.\<close>

record epub_item =
  item_id :: "string option"
  file_name :: string
  media_type :: string
  item_content :: "bytes option"

text \<open>
  The library calls whose results the extractor only passes on. Each one that can raise
  returns a sum. \<open>image_open\<close> stands for decoding with Pillow (\<open>Image.open\<close> is lazy: a
  decoding error may surface in \<open>convert\<close> or \<open>save\<close>, inside the same \<open>try\<close>);
  \<open>png_encode\<close> for the bytes of a saved PNG file.
\<close>

record env =
  xml_fromstring :: "bytes \<Rightarrow> exn + element"
  zip_open :: "fdata option \<Rightarrow> exn + zipfile"
  read_epub :: "fdata option \<Rightarrow> exn + epub_item list"
  image_open :: "bytes \<Rightarrow> exn + image"
  guess_type :: "string \<Rightarrow> string option"
  guess_extension_str :: "string \<Rightarrow> string option"
  png_encode :: "image \<Rightarrow> bytes"
  textsize :: "ustr \<Rightarrow> exn + int \<times> int"
  textbbox :: "ustr \<Rightarrow> int \<times> int \<times> int \<times> int"
  textwrap_fill :: "ustr \<Rightarrow> int \<Rightarrow> ustr"
  splitlines :: "ustr \<Rightarrow> ustr list"
  pdf_reader :: "fdata option \<Rightarrow> exn + bytes list"
  pdf_write_page :: "bytes \<Rightarrow> exn + bytes"
  convert_from_bytes :: "bytes \<Rightarrow> exn + image list"

text \<open>\<open>mimetypes.guess_extension(type)\<close> begins with \<open>type.lower()\<close>: on \<open>None\<close> it raises
  \<open>AttributeError\<close>.\<close>

definition guess_extension :: "env \<Rightarrow> string option \<Rightarrow> exn + string option" where
  "guess_extension e t =
     (case t of
        None \<Rightarrow> Inl (AttributeError ''NoneType object has no attribute lower'')
      | Some s \<Rightarrow> Inr (guess_extension_str e s))"

text \<open>\<open>x or '.img'\<close> for an optional string \<open>x\<close>.\<close>

definition or_img :: "string option \<Rightarrow> string" where
  "or_img x = (case x of None \<Rightarrow> ''.img'' | Some g \<Rightarrow> if g = [] then ''.img'' else g)"

text \<open>Make the image's mode fit PNG: \<open>if img.mode not in ('RGB', 'RGBA'): img = img.convert('RGBA')\<close>.\<close>

definition ensure_png_mode :: "image \<Rightarrow> image" where
  "ensure_png_mode img =
     (if img_mode img \<noteq> ''RGB'' \<and> img_mode img \<noteq> ''RGBA''
      then img\<lparr>img_mode := ''RGBA'', img_ops := img_ops img @ [ConvertTo ''RGBA'']\<rparr>
      else img)"

section \<open>EPUB extraction\<close>

definition get_rootfile_path :: "env \<Rightarrow> zipfile \<Rightarrow> exn + string" where
  "get_rootfile_path e zipf =
     (case zip_read zipf ''META-INF/container.xml'' of
        None \<Rightarrow> Inl (ValueError ''Invalid EPUB: missing META-INF/container.xml'')
      | Some container \<Rightarrow>
          (case xml_fromstring e container of
             Inl err \<Rightarrow> Inl err
           | Inr root \<Rightarrow>
               (let rootfile =
                      (case find_desc_any_ns root ''rootfile'' of
                         None \<Rightarrow> find_desc root ''rootfile''
                       | Some r \<Rightarrow> Some r)
                in case rootfile of
                     None \<Rightarrow> Inl (ValueError ''Invalid EPUB: could not find rootfile in container.xml'')
                   | Some r \<Rightarrow>
                       (case attrib_get r ''full-path'' of
                          None \<Rightarrow> Inl (ValueError ''Invalid EPUB: could not find rootfile in container.xml'')
                        | Some p \<Rightarrow> Inr p))))"

definition find_cover_href :: "env \<Rightarrow> bytes \<Rightarrow> string \<Rightarrow> exn + string option" where
  "find_cover_href e opf_data rootfile_dir =
     (case xml_fromstring e opf_data of
        Inl err \<Rightarrow> Inl err
      | Inr tree \<Rightarrow> Inr (find_cover_href_tree tree rootfile_dir))"

datatype flow = Returned | FellThrough

definition py_str :: "string option \<Rightarrow> string" where
  "py_str x = (case x of None \<Rightarrow> ''None'' | Some s \<Rightarrow> s)"

text \<open>Lines 149-159: the raw-bytes branch of the EbookLib path.\<close>

definition ebooklib_raw :: "env \<Rightarrow> string \<Rightarrow> epub_item \<Rightarrow> bytes \<Rightarrow> world \<Rightarrow> (exn + flow) \<times> world" where
  "ebooklib_raw e input_file cover_item data st =
     (case (if file_name cover_item \<noteq> [] then Some (file_name cover_item) else item_id cover_item) of
        None \<Rightarrow> (Inl (TypeError ''expected str, bytes or os.PathLike object, not NoneType''), st)
      | Some name \<Rightarrow>
          (let ext0 = snd (splitext name);
               ext = (if ext0 = [] then or_img (guess_extension_str e (media_type cover_item)) else ext0);
               output_file = fst (splitext input_file) @ ext;
               st1 = write_file output_file (Bytes data) st
           in (Inr Returned,
               print (''Done, your cover photo has been saved as '' @ output_file @ '' (raw bytes)'') st1)))"

text \<open>Lines 106-159: the body of the first \<open>try\<close>.\<close>

definition ebooklib_try :: "env \<Rightarrow> string \<Rightarrow> world \<Rightarrow> (exn + flow) \<times> world" where
  "ebooklib_try e input_file st =
     (case read_epub e (files st input_file) of
        Inl err \<Rightarrow> (Inl err, st)
      | Inr items \<Rightarrow>
          (let image_items = filter (\<lambda>it. startswith (media_type it) ''image/'') items;
               cover_item =
                 (case List.find (\<lambda>it. contains ''cover'' (lower (py_str (item_id it)))
                                      \<or> contains ''cover'' (lower (file_name it))) image_items of
                    Some it \<Rightarrow> Some it
                  | None \<Rightarrow> (case image_items of [] \<Rightarrow> None | it # _ \<Rightarrow> Some it))
           in case cover_item of
                None \<Rightarrow> (Inr FellThrough, st)
              | Some ci \<Rightarrow>
                  (case item_content ci of
                     None \<Rightarrow> (Inl (ValueError ''Could not read image bytes from EbookLib item''), st)
                   | Some data \<Rightarrow>
                       (case image_open e data of
                          Inr img \<Rightarrow>
                            (let output_file = fst (splitext input_file) @ ''.png'';
                                 st1 = write_file output_file (Png (ensure_png_mode img)) st
                             in (Inr Returned,
                                 print (''Done, your cover photo has been saved as '' @ output_file) st1))
                        | Inl err \<Rightarrow> ebooklib_raw e input_file ci data st))))"

text \<open>Lines 184-188: the scan of the archive's names after the exact name was not found.\<close>

fun scan_namelist :: "zipfile \<Rightarrow> string \<Rightarrow> string list \<Rightarrow> exn + (bytes \<times> string) option" where
  "scan_namelist z cover_href [] = Inr None"
| "scan_namelist z cover_href (name # names) =
     (if endswith (lower name) (lower (basename cover_href))
      then (case zip_read z name of
              None \<Rightarrow> Inl (KeyError name)
            | Some d \<Rightarrow> Inr (Some (d, name)))
      else scan_namelist z cover_href names)"

text \<open>Lines 179-188: the bytes of the cover and the name they were read under.\<close>

definition read_cover :: "zipfile \<Rightarrow> string \<Rightarrow> exn + (bytes \<times> string) option" where
  "read_cover z cover_href =
     (case zip_read z cover_href of
        Some d \<Rightarrow> Inr (Some (d, cover_href))
      | None \<Rightarrow> scan_namelist z cover_href (namelist z))"

text \<open>Lines 193-210: decode and save as PNG, or write the raw bytes.\<close>

definition materialize :: "env \<Rightarrow> string \<Rightarrow> string \<Rightarrow> bytes \<Rightarrow> world \<Rightarrow> (exn + unit) \<times> world" where
  "materialize e input_file cover_href image_data st =
     (case image_open e image_data of
        Inr img \<Rightarrow>
          (let output_file = fst (splitext input_file) @ ''.png'';
               st1 = write_file output_file (Png (ensure_png_mode img)) st
           in (Inr (), print (''Done, your cover photo has been saved as '' @ output_file) st1))
      | Inl err \<Rightarrow>
          (let ext0 = snd (splitext cover_href)
           in case (if ext0 = []
                    then (case guess_extension e (guess_type e cover_href) of
                            Inl err' \<Rightarrow> Inl err'
                          | Inr g \<Rightarrow> Inr (or_img g))
                    else Inr ext0) of
                Inl err' \<Rightarrow> (Inl err', st)
              | Inr ext \<Rightarrow>
                  (let output_file = fst (splitext input_file) @ ext;
                       st1 = write_file output_file (Bytes image_data) st
                   in (Inr (),
                       print (''Done, your cover photo has been saved as '' @ output_file
                              @ '' (raw bytes)'') st1))))"

text \<open>Lines 167-210: the body of the second \<open>try\<close>.\<close>

definition zip_try :: "env \<Rightarrow> string \<Rightarrow> world \<Rightarrow> (exn + unit) \<times> world" where
  "zip_try e input_file st =
     (case zip_open e (files st input_file) of
        Inl err \<Rightarrow> (Inl err, st)
      | Inr z \<Rightarrow>
          (case get_rootfile_path e z of
             Inl err \<Rightarrow> (Inl err, st)
           | Inr rootfile_path \<Rightarrow>
               (let rootfile_dir = dirname rootfile_path
                in case zip_read z rootfile_path of
                     None \<Rightarrow> (Inl (KeyError rootfile_path), st)
                   | Some opf_data \<Rightarrow>
                       (case find_cover_href e opf_data rootfile_dir of
                          Inl err \<Rightarrow> (Inl err, st)
                        | Inr None \<Rightarrow> (Inr (), print ''Cover image not found in EPUB manifest.'' st)
                        | Inr (Some href) \<Rightarrow>
                            if href = []
                            then (Inr (), print ''Cover image not found in EPUB manifest.'' st)
                            else
                              (let cover_href = replace_char (CHR 0x5C) CHR ''/'' href
                               in case read_cover z cover_href of
                                    Inl err \<Rightarrow> (Inl err, st)
                                  | Inr None \<Rightarrow>
                                      (Inr (), print (''Could not read cover image '' @ cover_href
                                                      @ '' from EPUB.'') st)
                                  | Inr (Some (image_data, cover_href')) \<Rightarrow>
                                      materialize e input_file cover_href' image_data st)))))"

text \<open>Lines 160-163: the handler of the first \<open>try\<close>, and the world in which the zip
  path starts when the EbookLib path has not returned.\<close>

definition zip_start :: "exn + flow \<Rightarrow> world \<Rightarrow> world" where
  "zip_start r st1 =
     (case r of
        Inl err \<Rightarrow> print (''EbookLib extraction failed, falling back to zip parsing: '' @ exn_str err) st1
      | Inr _ \<Rightarrow> st1)"

definition extract_epub_cover :: "env \<Rightarrow> string \<Rightarrow> world \<Rightarrow> world" where
  "extract_epub_cover e input_file st =
     (let st0 = print (''Extracting cover photo from '' @ input_file @ ''...'') st
      in case ebooklib_try e input_file st0 of
           (Inr Returned, st1) \<Rightarrow> st1
         | (r, st1) \<Rightarrow>
             (case zip_try e input_file (zip_start r st1) of
                (Inl err, st3) \<Rightarrow>
                  print (''Error extracting EPUB cover from '' @ input_file @ '': '' @ exn_str err) st3
              | (Inr _, st3) \<Rightarrow> st3))"

section \<open>TXT covers\<close>

text \<open>
  \<open>open(input_file, 'r', encoding='utf-8', errors='ignore')\<close> gives the text of the file:
  its bytes decoded as UTF-8 by CPython's decoder with the \<open>ignore\<close> error handler, and then
  every \<open>\r\n\<close> and lone \<open>\r\<close> turned into \<open>\n\<close> (universal newlines). Bytes are numbers
  below 256 here, code point 10 is \<open>\n\<close> and 13 is \<open>\r\<close>.
\<close>

definition is_continuation :: "nat \<Rightarrow> bool" where
  "is_continuation b = (128 \<le> b \<and> b < 192)"

text \<open>
  The decoder (\<open>utf8_decode\<close> of \<open>Objects/stringlib/codecs.h\<close>) reads a lead byte and
  its continuation bytes. On an invalid start byte the handler skips that byte; on an
  invalid continuation byte it skips the bytes read before it; when the data end inside a
  sequence it skips what is left.
\<close>

fun utf8_decode_ignore :: "nat list \<Rightarrow> ustr" where
  "utf8_decode_ignore [] = []"
| "utf8_decode_ignore (ch # s) =
     (if ch < 128 then ch # utf8_decode_ignore s
      else if ch < 194 then utf8_decode_ignore s
      else if ch < 224 then
        (case s of
           [] \<Rightarrow> []
         | ch2 # s2 \<Rightarrow>
             if is_continuation ch2
             then ((ch - 192) * 64 + (ch2 - 128)) # utf8_decode_ignore s2
             else utf8_decode_ignore s)
      else if ch < 240 then
        (case s of
           [] \<Rightarrow> []
         | ch2 # s2 \<Rightarrow>
             if \<not> is_continuation ch2 \<or> (ch = 224 \<and> ch2 < 160) \<or> (ch = 237 \<and> 160 \<le> ch2)
             then utf8_decode_ignore s
             else
               (case s2 of
                  [] \<Rightarrow> []
                | ch3 # s3 \<Rightarrow>
                    if is_continuation ch3
                    then ((ch - 224) * 4096 + (ch2 - 128) * 64 + (ch3 - 128)) # utf8_decode_ignore s3
                    else utf8_decode_ignore s2))
      else if ch < 245 then
        (case s of
           [] \<Rightarrow> []
         | ch2 # s2 \<Rightarrow>
             if \<not> is_continuation ch2 \<or> (ch = 240 \<and> ch2 < 144) \<or> (ch = 244 \<and> 144 \<le> ch2)
             then utf8_decode_ignore s
             else
               (case s2 of
                  [] \<Rightarrow> []
                | ch3 # s3 \<Rightarrow>
                    if \<not> is_continuation ch3 then utf8_decode_ignore s2
                    else
                      (case s3 of
                         [] \<Rightarrow> []
                       | ch4 # s4 \<Rightarrow>
                           if is_continuation ch4
                           then ((ch - 240) * 262144 + (ch2 - 128) * 4096 + (ch3 - 128) * 64
                                 + (ch4 - 128)) # utf8_decode_ignore s4
                           else utf8_decode_ignore s3)))
      else utf8_decode_ignore s)"

fun translate_newlines :: "ustr \<Rightarrow> ustr" where
  "translate_newlines [] = []"
| "translate_newlines [c] = (if c = 13 then [10] else [c])"
| "translate_newlines (c # c' # cs) =
     (if c = 13 then (if c' = 10 then 10 # translate_newlines cs else 10 # translate_newlines (c' # cs))
      else c # translate_newlines (c' # cs))"

definition file_bytes :: "env \<Rightarrow> fdata \<Rightarrow> bytes" where
  "file_bytes e d = (case d of Bytes b \<Rightarrow> b | Png img \<Rightarrow> png_encode e img)"

text \<open>Opening fails when there is no such file; every file that exists is taken to be readable.\<close>

definition open_text :: "env \<Rightarrow> fdata option \<Rightarrow> exn + ustr" where
  "open_text e d =
     (case d of
        None \<Rightarrow> Inl (OSError ''No such file or directory'')
      | Some c \<Rightarrow>
          Inr (translate_newlines (utf8_decode_ignore (map (of_char :: char \<Rightarrow> nat) (file_bytes e c)))))"

text \<open>\<open>str.isspace\<close>, which decides what \<open>str.rstrip()\<close> removes.\<close>

definition py_isspace :: "nat \<Rightarrow> bool" where
  "py_isspace c =
     ((9 \<le> c \<and> c \<le> 13) \<or> (28 \<le> c \<and> c \<le> 32) \<or> c = 133 \<or> c = 160 \<or> c = 5760
      \<or> (8192 \<le> c \<and> c \<le> 8202) \<or> c = 8232 \<or> c = 8233 \<or> c = 8239 \<or> c = 8287 \<or> c = 12288)"

definition rstrip :: "ustr \<Rightarrow> ustr" where
  "rstrip s = rev (dropWhile py_isspace (rev s))"

text \<open>\<open>f.readline()\<close> on the unread rest of the text: the line with its newline, and the rest.\<close>

fun readline :: "ustr \<Rightarrow> ustr \<times> ustr" where
  "readline [] = ([], [])"
| "readline (c # cs) =
     (if c = 10 then ([c], cs)
      else (case readline cs of (l, r) \<Rightarrow> (c # l, r)))"

text \<open>Lines 225-230: \<open>for _ in range(max_lines)\<close>.\<close>

fun read_lines :: "nat \<Rightarrow> ustr \<Rightarrow> ustr list" where
  "read_lines 0 f = []"
| "read_lines (Suc n) f =
     (case readline f of
        (line, rest) \<Rightarrow>
          if line = [] then []
          else rstrip_char 10 line # read_lines n rest)"

text \<open>Lines 236-238; 46 is the full stop.\<close>

definition cover_text :: "nat \<Rightarrow> ustr list \<Rightarrow> ustr" where
  "cover_text max_chars lines =
     (let text = join_with [10] lines
      in if length text > max_chars then rstrip (take max_chars text) @ [46, 46, 46] else text)"

text \<open>Lines 250-256: \<open>textsize\<close> of the letter \<open>A\<close>, or \<open>textbbox\<close> when the attribute is
  missing.\<close>

definition measure_A :: "env \<Rightarrow> exn + int \<times> int" where
  "measure_A e =
     (case textsize e [65] of
        Inr wh \<Rightarrow> Inr wh
      | Inl (AttributeError m) \<Rightarrow>
          (case textbbox e [65] of (x0, y0, x1, y1) \<Rightarrow> Inr (x1 - x0, y1 - y0))
      | Inl err \<Rightarrow> Inl err)"

text \<open>\<open>Image.new(mode, size, color)\<close>: Pillow refuses a negative size.\<close>

definition image_new :: "string \<Rightarrow> int \<times> int \<Rightarrow> string \<Rightarrow> exn + image" where
  "image_new mode sz color =
     (if fst sz < 0 \<or> snd sz < 0 then Inl (ValueError ''Width and height must be >= 0'')
      else Inr \<lparr>img_mode = mode, img_size = sz, img_ops = [Fill color]\<rparr>)"

text \<open>Lines 269-272: one \<open>draw.text\<close> per line, \<open>y\<close> advancing by the line height.\<close>

fun draw_lines :: "int \<Rightarrow> int \<Rightarrow> int \<Rightarrow> ustr list \<Rightarrow> image \<Rightarrow> image" where
  "draw_lines margin y line_height [] img = img"
| "draw_lines margin y line_height (line # lines) img =
     draw_lines margin (y + line_height) line_height lines
       (img\<lparr>img_ops := img_ops img @ [DrawText (margin, y) line ''black'']\<rparr>)"

definition chars_per_line :: "int \<Rightarrow> int" where
  "chars_per_line avg_char_w0 =
     (let width = 1200; margin = 40;
          avg_char_w = (if avg_char_w0 = 0 then 7 else avg_char_w0)
      in max 40 ((width - 2 * margin) div avg_char_w))"

text \<open>Lines 240-276: measure, wrap, draw and save the text.\<close>

definition render_cover :: "env \<Rightarrow> string \<Rightarrow> ustr \<Rightarrow> world \<Rightarrow> (exn + unit) \<times> world" where
  "render_cover e input_file text st =
     (let width = 1200;
          margin = 40
      in case measure_A e of
           Inl err \<Rightarrow> (Inl err, st)
         | Inr (avg_char_w, char_h) \<Rightarrow>
             (let wrapped = textwrap_fill e text (chars_per_line avg_char_w);
                  lines' = splitlines e wrapped;
                  line_height = char_h + 6;
                  height = margin * 2 + line_height * max 1 (int (length lines'))
              in case image_new ''RGBA'' (width, height) ''white'' of
                   Inl err \<Rightarrow> (Inl err, st)
                 | Inr img \<Rightarrow>
                     (let img' = draw_lines margin margin line_height lines' img;
                          output_file = fst (splitext input_file) @ ''.png'';
                          st1 = write_file output_file (Png img') st
                      in (Inr (),
                          print (''Done, your text cover has been saved as '' @ output_file) st1))))"

text \<open>Lines 224-276: the body of the \<open>try\<close> of \<open>extract_txt_cover\<close>.\<close>

definition txt_try :: "env \<Rightarrow> string \<Rightarrow> nat \<Rightarrow> nat \<Rightarrow> world \<Rightarrow> (exn + unit) \<times> world" where
  "txt_try e input_file max_lines max_chars st =
     (case open_text e (files st input_file) of
        Inl err \<Rightarrow> (Inl err, st)
      | Inr f \<Rightarrow>
          (let lines = read_lines max_lines f
           in if lines = [] then (Inr (), print ''TXT file is empty; no cover created.'' st)
              else render_cover e input_file (cover_text max_chars lines) st))"

text \<open>Lines 277-278: the handler of that \<open>try\<close>.\<close>

definition txt_except :: "string \<Rightarrow> (exn + unit) \<times> world \<Rightarrow> world" where
  "txt_except input_file r =
     (case r of
        (Inl err, st1) \<Rightarrow>
          print (''Error creating TXT cover from '' @ input_file @ '': '' @ exn_str err) st1
      | (Inr _, st1) \<Rightarrow> st1)"

definition extract_txt_cover :: "env \<Rightarrow> string \<Rightarrow> nat \<Rightarrow> nat \<Rightarrow> world \<Rightarrow> world" where
  "extract_txt_cover e input_file max_lines max_chars st =
     txt_except input_file
       (txt_try e input_file max_lines max_chars
          (print (''Creating text cover image from '' @ input_file @ ''...'') st))"

section \<open>The command line and the loop over the input files\<close>

datatype file_type = Pdf | Epub | Txt


text \<open>Lines 288-300 and \<open>images[0]\<close>: the first page of the PDF as an image.\<close>

definition pdf_first_image :: "env \<Rightarrow> fdata option \<Rightarrow> exn + image" where
  "pdf_first_image e d =
     (case pdf_reader e d of
        Inl err \<Rightarrow> Inl err
      | Inr [] \<Rightarrow> Inl (IndexError ''sequence index out of range'')
      | Inr (first_page # _) \<Rightarrow>
          (case pdf_write_page e first_page of
             Inl err \<Rightarrow> Inl err
           | Inr buffer \<Rightarrow>
               (case convert_from_bytes e buffer of
                  Inl err \<Rightarrow> Inl err
                | Inr [] \<Rightarrow> Inl (IndexError ''list index out of range'')
                | Inr (im # _) \<Rightarrow> Inr im)))"

text \<open>Lines 285-314: the PDF branch. Nothing here catches an exception.\<close>

definition pdf_branch :: "env \<Rightarrow> string \<Rightarrow> world \<Rightarrow> (exn + unit) \<times> world" where
  "pdf_branch e input_file st =
     (let st0 = print (''Extracting cover photo from '' @ input_file @ ''...'') st
      in case pdf_first_image e (files st0 input_file) of
           Inl err \<Rightarrow> (Inl err, st0)
         | Inr im \<Rightarrow>
             (let output_file = fst (splitext input_file) @ ''.png'';
                  st1 = write_file output_file (Png im) st0;
                  st2 = print output_file st1
              in (Inr (),
                  print (''Done, your cover photo has been saved as '' @ output_file) st2)))"

text \<open>Lines 282-320. The result is the exception that ended the run, if any, and the world.\<close>

fun main_loop :: "env \<Rightarrow> string list \<Rightarrow> world \<Rightarrow> exn option \<times> world" where
  "main_loop e [] st = (None, st)"
| "main_loop e (input_file # rest) st =
     (let ext = lower (snd (splitext input_file))
      in if ext = ''.pdf'' then
           (case pdf_branch e input_file st of
              (Inl err, st') \<Rightarrow> (Some err, st')
            | (Inr _, st') \<Rightarrow> main_loop e rest st')
         else if ext = ''.epub'' then main_loop e rest (extract_epub_cover e input_file st)
         else if ext = ''.txt'' then main_loop e rest (extract_txt_cover e input_file 20 2000 st)
         else main_loop e rest
                (print (''Unsupported file type for '' @ input_file @ ''; supported: .pdf, .epub'') st))"


section \<open>Vocabulary of the properties\<close>

text \<open>The UTF-8 encoding of a code point, and the code points that have one (the Unicode
  scalar values: everything below \<open>0x110000\<close> but the surrogates).\<close>

definition utf8_encode :: "nat \<Rightarrow> nat list" where
  "utf8_encode cp =
     (if cp < 128 then [cp]
      else if cp < 2048 then [192 + cp div 64, 128 + cp mod 64]
      else if cp < 65536 then [224 + cp div 4096, 128 + cp div 64 mod 64, 128 + cp mod 64]
      else [240 + cp div 262144, 128 + cp div 4096 mod 64, 128 + cp div 64 mod 64, 128 + cp mod 64])"

definition is_scalar :: "nat \<Rightarrow> bool" where
  "is_scalar cp = (cp < 55296 \<or> (57343 < cp \<and> cp < 1114112))"

text \<open>The lines of a text: the pieces between its newlines, without the empty piece after
  a final newline.\<close>

definition file_lines :: "ustr \<Rightarrow> ustr list" where
  "file_lines t =
     (let parts = split_on 10 t in if last parts = [] then butlast parts else parts)"

text \<open>An item enters the manifest dictionary when it has a non-empty id and a non-empty
  href; \<open>item_entry\<close> is the value stored for it.\<close>

definition item_valid :: "element \<Rightarrow> bool" where
  "item_valid item =
     (case (attrib_get item ''id'', attrib_get item ''href'') of
        (Some i, Some h) \<Rightarrow> i \<noteq> [] \<and> h \<noteq> []
      | _ \<Rightarrow> False)"

definition item_entry :: "element \<Rightarrow> string \<times> string \<times> string" where
  "item_entry item =
     (attrib_get_default item ''href'' [], attrib_get_default item ''media-type'' [],
      attrib_get_default item ''properties'' [])"

definition cover_meta_resolves :: "manifest \<Rightarrow> element \<Rightarrow> bool" where
  "cover_meta_resolves manifest meta =
     (lower (attrib_get_default meta ''name'' []) = ''cover'' \<and>
      (case attrib_get meta ''content'' of
         None \<Rightarrow> False
       | Some cover_id \<Rightarrow> cover_id \<noteq> [] \<and> map_of manifest cover_id \<noteq> None))"

definition has_cover_image_prop :: "string \<times> string \<times> string \<times> string \<Rightarrow> bool" where
  "has_cover_image_prop = (\<lambda>(iid, href, mtype, props). contains ''cover-image'' props)"

definition is_cover_named_image :: "string \<times> string \<times> string \<times> string \<Rightarrow> bool" where
  "is_cover_named_image =
     (\<lambda>(iid, href, mtype, props).
        startswith mtype ''image/'' \<and> (contains ''cover'' (lower iid) \<or> contains ''cover'' (lower href)))"

definition is_image :: "string \<times> string \<times> string \<times> string \<Rightarrow> bool" where
  "is_image = (\<lambda>(iid, href, mtype, props). startswith mtype ''image/'')"

fun priority_chain :: "('a \<Rightarrow> bool) list \<Rightarrow> 'a list \<Rightarrow> 'a option" where
  "priority_chain [] xs = None"
| "priority_chain (p # ps) xs =
     (case List.find p xs of Some x \<Rightarrow> Some x | None \<Rightarrow> priority_chain ps xs)"

section \<open>Sample inputs\<close>

text \<open>
  A library environment for evaluating the extractor on concrete inputs. File contents and
  archive members are named by short byte strings; the parsers map those names to the
  documents below and refuse everything else.
\<close>

definition demo_container :: element where
  "demo_container =
     Element ''{urn:oasis:names:tc:opendocument:xmlns:container}container'' [(''version'', ''1.0'')]
       [Element ''{urn:oasis:names:tc:opendocument:xmlns:container}rootfiles'' []
          [Element ''{urn:oasis:names:tc:opendocument:xmlns:container}rootfile''
             [(''full-path'', ''OEBPS/content.opf''),
              (''media-type'', ''application/oebps-package+xml'')] []]]"

definition opf_element :: "string \<Rightarrow> (string \<times> string) list \<Rightarrow> element list \<Rightarrow> element" where
  "opf_element name attrs kids = Element (''{http://www.idpf.org/2007/opf}'' @ name) attrs kids"

definition opf_package :: "element list \<Rightarrow> element list \<Rightarrow> element" where
  "opf_package metas items =
     opf_element ''package'' [(''version'', ''2.0'')]
       [opf_element ''metadata'' [] metas, opf_element ''manifest'' [] items]"

text \<open>A cover meta entry after two that do not resolve; the cover item carries no image
  media type in its name and is not the first item.\<close>

definition opf_meta :: element where
  "opf_meta =
     opf_package
       [opf_element ''meta'' [(''name'', ''generator''), (''content'', ''cvr'')] [],
        opf_element ''meta'' [(''name'', ''cover''), (''content'', ''missing'')] [],
        opf_element ''meta'' [(''name'', ''Cover''), (''content'', ''cvr'')] []]
       [opf_element ''item'' [(''id'', ''p1''), (''href'', ''page1.png''), (''media-type'', ''image/png''),
                              (''properties'', ''cover-image'')] [],
        opf_element ''item'' [(''id'', ''cvr''), (''href'', ''../images/./cover.jpg''),
                              (''media-type'', ''image/jpeg'')] []]"

text \<open>Two cover meta entries, each naming a manifest item.\<close>

definition opf_two :: element where
  "opf_two =
     opf_package
       [opf_element ''meta'' [(''name'', ''cover''), (''content'', ''a'')] [],
        opf_element ''meta'' [(''name'', ''cover''), (''content'', ''b'')] []]
       [opf_element ''item'' [(''id'', ''a''), (''href'', ''a.jpg''), (''media-type'', ''image/jpeg'')] [],
        opf_element ''item'' [(''id'', ''b''), (''href'', ''b.jpg''), (''media-type'', ''image/jpeg'')] []]"

text \<open>No cover meta entry that resolves; a plain image, an image named cover and an item
  marked \<open>cover-image\<close>, in this order.\<close>

definition opf_chain :: element where
  "opf_chain =
     opf_package
       [opf_element ''meta'' [(''name'', ''cover''), (''content'', ''missing'')] []]
       [opf_element ''item'' [(''id'', ''p1''), (''href'', ''page1.png''), (''media-type'', ''image/png'')] [],
        opf_element ''item'' [(''id'', ''c2''), (''href'', ''Cover.jpg''), (''media-type'', ''image/jpeg'')] [],
        opf_element ''item'' [(''id'', ''c3''), (''href'', ''front.svg''), (''media-type'', ''image/svg+xml''),
                              (''properties'', ''cover-image'')] []]"

text \<open>A manifest without any image.\<close>

definition opf_noimg :: element where
  "opf_noimg =
     opf_package
       [opf_element ''meta'' [(''name'', ''cover''), (''content'', ''missing'')] []]
       [opf_element ''item'' [(''id'', ''ncx''), (''href'', ''toc.ncx''),
                              (''media-type'', ''application/x-dtbncx+xml'')] [],
        opf_element ''item'' [(''id'', ''ch1''), (''href'', ''ch1.xhtml''),
                              (''media-type'', ''application/xhtml+xml'')] []]"

text \<open>The cover meta entry names an item whose href has no extension and whose media type
  is not an image type.\<close>

definition opf_noext :: element where
  "opf_noext =
     opf_package
       [opf_element ''meta'' [(''name'', ''cover''), (''content'', ''cvr'')] []]
       [opf_element ''item'' [(''id'', ''cvr''), (''href'', ''images/cover''),
                              (''media-type'', ''application/octet-stream'')] []]"

text \<open>The cover is named with an accented letter, in lower case.\<close>

definition opf_accent :: element where
  "opf_accent =
     opf_package
       [opf_element ''meta'' [(''name'', ''cover''), (''content'', ''cvr'')] []]
       [opf_element ''item'' [(''id'', ''cvr''), (''href'', ''caf'' @ [CHR 0xE9] @ ''.jxl''),
                              (''media-type'', ''image/jxl'')] []]"

definition demo_fromstring :: "bytes \<Rightarrow> exn + element" where
  "demo_fromstring b =
     (if b = ''container.xml'' then Inr demo_container
      else if b = ''opf_meta'' then Inr opf_meta
      else if b = ''opf_two'' then Inr opf_two
      else if b = ''opf_chain'' then Inr opf_chain
      else if b = ''opf_noimg'' then Inr opf_noimg
      else if b = ''opf_noext'' then Inr opf_noext
      else if b = ''opf_accent'' then Inr opf_accent
      else Inl (LibError ''ParseError''))"

definition demo_archive :: "bytes \<Rightarrow> (string \<times> bytes) list \<Rightarrow> zipfile" where
  "demo_archive opf members =
     [(''mimetype'', ''application/epub+zip''),
      (''META-INF/container.xml'', ''container.xml''),
      (''OEBPS/content.opf'', opf)] @ members"

definition demo_zip_open :: "fdata option \<Rightarrow> exn + zipfile" where
  "demo_zip_open d =
     (if d = Some (Bytes ''epub_noimg'') then Inr (demo_archive ''opf_noimg'' [(''OEBPS/ch1.xhtml'', ''text'')])
      else if d = Some (Bytes ''epub_noext'')
      then Inr (demo_archive ''opf_noext'' [(''OEBPS/images/cover'', ''JXL'')])
      else if d = Some (Bytes ''epub_moved'')
      then Inr (demo_archive ''opf_meta'' [(''OEBPS/page1.png'', ''PNG''), (''Images/COVER.JPG'', ''JPEG'')])
      else if d = Some (Bytes ''epub_accent'')
      then Inr (demo_archive ''opf_accent'' [(''Images/CAF'' @ [CHR 0xC9] @ ''.JXL'', ''JXL'')])
      else if d = Some (Bytes ''epub_lost'')
      then Inr (demo_archive ''opf_meta'' [(''OEBPS/page1.png'', ''PNG'')])
      else Inl (LibError ''File is not a zip file''))"

definition demo_image_open :: "bytes \<Rightarrow> exn + image" where
  "demo_image_open b =
     (if b = ''JPEG'' then Inr \<lparr>img_mode = ''RGB'', img_size = (600, 800), img_ops = [Source b]\<rparr>
      else if b = ''PNG'' then Inr \<lparr>img_mode = ''P'', img_size = (16, 16), img_ops = [Source b]\<rparr>
      else Inl (LibError ''cannot identify image file''))"

text \<open>EbookLib reads only the book whose cover has no extension, and sees no image in it.\<close>

definition demo_read_epub :: "fdata option \<Rightarrow> exn + epub_item list" where
  "demo_read_epub d =
     (if d = Some (Bytes ''epub_noext'')
      then Inr [\<lparr>item_id = Some ''cvr'', file_name = ''images/cover'',
                 media_type = ''application/octet-stream'', item_content = Some ''JXL''\<rparr>]
      else Inl (LibError ''Bad Zip file''))"

definition demo_lib :: env where
  "demo_lib =
     \<lparr>xml_fromstring = demo_fromstring,
      zip_open = demo_zip_open,
      read_epub = demo_read_epub,
      image_open = demo_image_open,
      guess_type = (\<lambda>url. None),
      guess_extension_str = (\<lambda>t. if t = ''image/jpeg'' then Some ''.jpg'' else None),
      png_encode = (\<lambda>img. ''PNG''),
      textsize = (\<lambda>s. Inl (AttributeError ''ImageDraw object has no attribute textsize'')),
      textbbox = (\<lambda>s. (0, 3, 6, 11)),
      textwrap_fill = (\<lambda>s w. s),
      splitlines = (\<lambda>s. if s = [] then [] else [s]),
      pdf_reader = (\<lambda>d. if d = Some (Bytes ''pdf'') then Inr [''page1'', ''page2'']
                          else Inl (LibError ''EOF marker not found'')),
      pdf_write_page = (\<lambda>p. Inr p),
      convert_from_bytes = (\<lambda>b. Inr [\<lparr>img_mode = ''RGB'', img_size = (1700, 2200), img_ops = [Source b]\<rparr>])\<rparr>"

text \<open>The bytes of a text file: \<open>Hi\<close>, an invalid byte, an e with acute accent in UTF-8,
  a carriage return and line feed, \<open>bye\<close>, a line feed and \<open>x\<close>.\<close>

definition notes_bytes :: bytes where
  "notes_bytes =
     [CHR ''H'', CHR ''i'', CHR 0xFF, CHR 0xC3, CHR 0xA9, CHR 0x0D, CHR 0x0A,
      CHR ''b'', CHR ''y'', CHR ''e'', CHR 0x0A, CHR ''x'']"

definition demo_world :: "(string \<times> fdata) list \<Rightarrow> world" where
  "demo_world fs = \<lparr>files = map_of fs, stdout = []\<rparr>"

section \<open>Properties of the cover locator\<close>

lemma find_append:
  "List.find P (xs @ ys) = (case List.find P xs of None \<Rightarrow> List.find P ys | Some x \<Rightarrow> Some x)"
  by (induction xs) auto

lemma build_manifest_Cons:
  "build_manifest (x # xs) m =
     build_manifest xs
       (if item_valid x then AList.update (attrib_get_default x ''id'' []) (item_entry x) m else m)"
  by (simp add: item_valid_def item_entry_def attrib_get_default_def split: option.splits)

lemma item_valid_id:
  "item_valid x \<Longrightarrow> (attrib_get x ''id'' = Some k) = (attrib_get_default x ''id'' [] = k)"
  by (auto simp: item_valid_def attrib_get_default_def split: option.splits)

lemma map_of_build_manifest:
  "map_of (build_manifest items m) k =
     (case List.find (\<lambda>it. item_valid it \<and> attrib_get it ''id'' = Some k) (rev items) of
        Some it \<Rightarrow> Some (item_entry it)
      | None \<Rightarrow> map_of m k)"
proof (induction items arbitrary: m)
  case Nil
  then show ?case by simp
next
  case (Cons x xs)
  show ?case
  proof (cases "item_valid x")
    case True
    then show ?thesis
      unfolding build_manifest_Cons
      by (simp add: Cons.IH find_append AList.update_conv' item_valid_id split: option.splits)
  next
    case False
    then show ?thesis
      unfolding build_manifest_Cons
      by (simp add: Cons.IH find_append split: option.splits)
  qed
qed

lemma scan_meta_None:
  "\<forall>m\<in>set metas. \<not> cover_meta_resolves manifest m \<Longrightarrow> scan_meta d manifest metas = None"
  by (induction metas) (auto simp: cover_meta_resolves_def split: option.splits)

lemma scan_meta_first:
  assumes "\<forall>m\<in>set pre. \<not> cover_meta_resolves manifest m"
    and "lower (attrib_get_default meta ''name'' []) = ''cover''"
    and "attrib_get meta ''content'' = Some X" and "X \<noteq> []"
    and "map_of manifest X = Some (href, mtype, props)"
  shows "scan_meta d manifest (pre @ meta # post) = Some (resolve_href d href)"
  using assms by (induction pre) (auto simp: cover_meta_resolves_def split: option.splits)

lemma scan_cover_image_find:
  "scan_cover_image d m =
     map_option (\<lambda>(iid, href, mtype, props). resolve_href d href) (List.find has_cover_image_prop m)"
  by (induction d m rule: scan_cover_image.induct) (auto simp: has_cover_image_prop_def)

lemma scan_cover_name_find:
  "scan_cover_name d m =
     map_option (\<lambda>(iid, href, mtype, props). resolve_href d href) (List.find is_cover_named_image m)"
  by (induction d m rule: scan_cover_name.induct) (auto simp: is_cover_named_image_def)

lemma scan_first_image_find:
  "scan_first_image d m =
     map_option (\<lambda>(iid, href, mtype, props). resolve_href d href) (List.find is_image m)"
  by (induction d m rule: scan_first_image.induct) (auto simp: is_image_def)

text \<open>
  C1. Let the \<open>metadata/meta\<close> entries of the package document be \<open>pre @ meta # post\<close>,
  where no entry of \<open>pre\<close> is a cover entry naming a key of the manifest dictionary, \<open>meta\<close>
  has name \<open>cover\<close> (in any case) and content \<open>X\<close>, and \<open>item\<close> is the last manifest item
  with id \<open>X\<close> that has a non-empty id and href. Then \<open>_find_cover_href\<close> returns the href of
  \<open>item\<close> joined to the directory of the package document and normalised, whatever else the
  manifest holds.
\<close>

theorem find_cover_href_first_cover_meta:
  assumes "xml_fromstring e opf_data = Inr tree"
    and "metas_of tree = pre @ meta # post"
    and "\<forall>m\<in>set pre. \<not> cover_meta_resolves (manifest_of tree) m"
    and "lower (attrib_get_default meta ''name'' []) = ''cover''"
    and "attrib_get meta ''content'' = Some X"
    and "List.find (\<lambda>it. item_valid it \<and> attrib_get it ''id'' = Some X) (rev (items_of tree)) = Some item"
    and "attrib_get item ''href'' = Some href"
  shows "find_cover_href e opf_data rootfile_dir = Inr (Some (normpath (path_join rootfile_dir href)))"
proof -
  from assms(6) have v: "item_valid item" and i: "attrib_get item ''id'' = Some X"
    by (auto simp: find_Some_iff)
  from v i have nonempty: "X \<noteq> []"
    by (auto simp: item_valid_def split: option.splits)
  have "map_of (manifest_of tree) X = Some (item_entry item)"
    by (simp add: manifest_of_def map_of_build_manifest assms(6))
  then have look: "map_of (manifest_of tree) X
      = Some (href, attrib_get_default item ''media-type'' [], attrib_get_default item ''properties'' [])"
    by (simp add: item_entry_def attrib_get_default_def assms(7))
  have "scan_meta rootfile_dir (manifest_of tree) (metas_of tree) = Some (resolve_href rootfile_dir href)"
    unfolding assms(2) by (rule scan_meta_first [OF assms(3) assms(4) assms(5) nonempty look])
  then show ?thesis
    by (simp add: find_cover_href_def find_cover_href_tree_def assms(1) resolve_href_def)
qed

lemma find_cover_href_without_cover_meta:
  assumes "xml_fromstring e opf_data = Inr tree"
    and "\<forall>m\<in>set (metas_of tree). \<not> cover_meta_resolves (manifest_of tree) m"
  shows "find_cover_href e opf_data rootfile_dir =
           Inr (map_option (\<lambda>(iid, href, mtype, props). normpath (path_join rootfile_dir href))
                  (priority_chain [has_cover_image_prop, is_cover_named_image, is_image]
                     (manifest_of tree)))"
proof -
  have "scan_meta rootfile_dir (manifest_of tree) (metas_of tree) = None"
    by (rule scan_meta_None [OF assms(2)])
  then show ?thesis
    by (simp add: find_cover_href_def find_cover_href_tree_def assms(1) scan_cover_image_find
          scan_cover_name_find scan_first_image_find resolve_href_def split: option.splits)
qed

text \<open>
  C2. When no cover meta entry names a key of the manifest dictionary, \<open>_find_cover_href\<close>
  is the priority chain over the dictionary in iteration order: the first entry whose
  properties contain \<open>cover-image\<close>; failing that the first image entry with \<open>cover\<close> in
  its lower-cased id or href; failing that the first image entry; failing that \<open>None\<close>. The
  href chosen is joined to the directory of the package document and normalised.
\<close>

theorem find_cover_href_priority_chain:
  assumes "xml_fromstring e opf_data = Inr tree"
    and "\<forall>m\<in>set (metas_of tree). \<not> cover_meta_resolves (manifest_of tree) m"
  shows "find_cover_href e opf_data rootfile_dir =
           Inr (map_option (\<lambda>(iid, href, mtype, props). normpath (path_join rootfile_dir href))
                  (priority_chain [has_cover_image_prop, is_cover_named_image, is_image]
                     (manifest_of tree)))"
  using assms by (rule find_cover_href_without_cover_meta)

section \<open>Properties of the EPUB extraction\<close>

lemma files_print [simp]: "files (print s w) = files w"
  by (simp add: print_def)

lemma stdout_print [simp]: "stdout (print s w) = stdout w @ [s]"
  by (simp add: print_def)

lemma files_write_file [simp]: "files (write_file p d w) = (files w)(p \<mapsto> d)"
  by (simp add: write_file_def)

lemma stdout_write_file [simp]: "stdout (write_file p d w) = stdout w"
  by (simp add: write_file_def)

lemma ebooklib_try_keeps_world:
  "ebooklib_try e f st = (r, st1) \<Longrightarrow> r \<noteq> Inr Returned \<Longrightarrow> st1 = st"
  by (auto simp: ebooklib_try_def ebooklib_raw_def Let_def
      split: sum.splits option.splits list.splits if_splits)

lemma extract_epub_cover_fallback:
  assumes "ebooklib_try e f (print (''Extracting cover photo from '' @ f @ ''...'') st) = (r, st1)"
    and "r \<noteq> Inr Returned"
  shows "extract_epub_cover e f st =
           (case zip_try e f (zip_start r st1) of
              (Inl err, st3) \<Rightarrow>
                print (''Error extracting EPUB cover from '' @ f @ '': '' @ exn_str err) st3
            | (Inr u, st3) \<Rightarrow> st3)"
  using assms
  by (cases r; simp add: extract_epub_cover_def split: flow.splits)

lemma files_zip_start [simp]: "files (zip_start r st) = files st"
  by (simp add: zip_start_def split: sum.splits)

lemma normpath_nonempty: "normpath p \<noteq> []"
  by (simp add: normpath_def Let_def)

lemma scan_meta_nonempty: "scan_meta d m metas = Some r \<Longrightarrow> r \<noteq> []"
  by (induction metas) (auto simp: resolve_href_def normpath_nonempty split: option.splits if_splits)

lemma find_cover_href_nonempty:
  assumes "find_cover_href e opf_data d = Inr (Some href)"
  shows "href \<noteq> []"
  using assms
  by (auto simp: find_cover_href_def find_cover_href_tree_def scan_cover_image_find
      scan_cover_name_find scan_first_image_find resolve_href_def normpath_nonempty
      Let_def
      split: sum.splits option.splits dest: scan_meta_nonempty)

lemma zip_read_namelist: "name \<in> set (namelist z) \<Longrightarrow> \<exists>d. zip_read z name = Some d"
proof -
  assume "name \<in> set (namelist z)"
  then have "name \<in> fst ` set (rev z)" by (simp add: namelist_def)
  then have "map_of (rev z) name \<noteq> None" by (simp only: map_of_eq_None_iff not_not)
  then show ?thesis by (auto simp: zip_read_def)
qed

lemma scan_namelist_find:
  assumes "set names \<subseteq> set (namelist z)"
  shows "case List.find (\<lambda>name. endswith (lower name) (lower (basename cover_href))) names of
           Some name \<Rightarrow> (\<exists>d. zip_read z name = Some d \<and> scan_namelist z cover_href names = Inr (Some (d, name)))
         | None \<Rightarrow> scan_namelist z cover_href names = Inr None"
  using assms
proof (induction names)
  case Nil
  then show ?case by simp
next
  case (Cons n ns)
  then have "n \<in> set (namelist z)" by simp
  then obtain d where "zip_read z n = Some d" using zip_read_namelist by blast
  with Cons show ?case by (auto split: option.splits)
qed

lemma read_cover_scan:
  assumes "zip_read z cover_href = None"
  shows "case List.find (\<lambda>name. endswith (lower name) (lower (basename cover_href))) (namelist z) of
           Some name \<Rightarrow> (\<exists>d. zip_read z name = Some d \<and> read_cover z cover_href = Inr (Some (d, name)))
         | None \<Rightarrow> read_cover z cover_href = Inr None"
  using scan_namelist_find [of "namelist z" z cover_href] assms
  by (auto simp: read_cover_def split: option.splits)

lemma materialize_stdout:
  "stdout (snd (materialize e f n d st)) \<noteq> stdout st @ [''Could not read cover image '' @ c @ '' from EPUB.'']"
  by (auto simp: materialize_def Let_def split: sum.splits)


text \<open>
  C3. Suppose the EbookLib path has not returned for an \<open>.epub\<close> input, the archive opens,
  its package document parses, no cover meta entry names a key of the manifest dictionary and
  no entry of the dictionary is marked \<open>cover-image\<close> or has an image media type. Then
  \<open>_find_cover_href\<close> returns \<open>None\<close>; \<open>extract_epub_cover\<close> prints
  \<open>Cover image not found in EPUB manifest.\<close> and returns with the files unchanged; and the
  loop goes on with the remaining input files.
\<close>

theorem no_image_no_cover:
  assumes "ebooklib_try e f (print (''Extracting cover photo from '' @ f @ ''...'') st) = (r, st1)"
    and "r \<noteq> Inr Returned"
    and "zip_open e (files st f) = Inr z"
    and "get_rootfile_path e z = Inr rootfile_path"
    and "zip_read z rootfile_path = Some opf_data"
    and "xml_fromstring e opf_data = Inr tree"
    and "\<forall>m\<in>set (metas_of tree). \<not> cover_meta_resolves (manifest_of tree) m"
    and "\<forall>x\<in>set (manifest_of tree). \<not> has_cover_image_prop x \<and> \<not> is_image x"
    and "lower (snd (splitext f)) = ''.epub''"
  shows "find_cover_href e opf_data (dirname rootfile_path) = Inr None
       \<and> extract_epub_cover e f st
           = print ''Cover image not found in EPUB manifest.''
               (zip_start r (print (''Extracting cover photo from '' @ f @ ''...'') st))
       \<and> files (extract_epub_cover e f st) = files st
       \<and> main_loop e (f # rest) st = main_loop e rest (extract_epub_cover e f st)"
proof -
  have st1: "st1 = print (''Extracting cover photo from '' @ f @ ''...'') st"
    using ebooklib_try_keeps_world [OF assms(1) assms(2)] .
  have no2: "List.find has_cover_image_prop (manifest_of tree) = None"
    using assms(8) by (simp add: find_None_iff)
  have no4: "List.find is_image (manifest_of tree) = None"
    using assms(8) by (simp add: find_None_iff)
  have no3: "List.find is_cover_named_image (manifest_of tree) = None"
    using assms(8) by (auto simp: find_None_iff is_image_def is_cover_named_image_def)
  have href: "find_cover_href e opf_data (dirname rootfile_path) = Inr None"
    using find_cover_href_without_cover_meta [OF assms(6) assms(7), of "dirname rootfile_path"]
    by (simp add: no2 no3 no4)
  have zip: "zip_try e f (zip_start r st1)
               = (Inr (), print ''Cover image not found in EPUB manifest.'' (zip_start r st1))"
    by (simp add: zip_try_def assms(3) assms(4) assms(5) href st1)
  have ex: "extract_epub_cover e f st
              = print ''Cover image not found in EPUB manifest.'' (zip_start r st1)"
    by (simp add: extract_epub_cover_fallback [OF assms(1) assms(2)] zip)
  have loop: "main_loop e (f # rest) st = main_loop e rest (extract_epub_cover e f st)"
    by (simp add: assms(9))
  show ?thesis
    using href ex loop by (simp add: st1)
qed

text \<open>
  C10. In the zip path, when the archive has no member named exactly as the resolved cover
  href, the names of the archive are scanned in order. If some name ends, ignoring case, with
  the basename of the cover href, the first such name and the bytes read under it are handed
  to the decoding step, and the message \<open>Could not read cover image ...\<close> is not printed. If
  none does, that message is printed, nothing is written and the body returns normally.
\<close>

theorem missing_cover_member_scan:
  assumes "zip_open e (files st f) = Inr z"
    and "get_rootfile_path e z = Inr rootfile_path"
    and "zip_read z rootfile_path = Some opf_data"
    and "find_cover_href e opf_data (dirname rootfile_path) = Inr (Some href)"
    and "cover_href = replace_char (CHR 0x5C) CHR ''/'' href"
    and "zip_read z cover_href = None"
  shows "case List.find (\<lambda>name. endswith (lower name) (lower (basename cover_href))) (namelist z) of
           Some name \<Rightarrow>
             (\<exists>d. zip_read z name = Some d \<and> zip_try e f st = materialize e f name d st)
             \<and> stdout (snd (zip_try e f st))
                 \<noteq> stdout st @ [''Could not read cover image '' @ cover_href @ '' from EPUB.'']
         | None \<Rightarrow>
             zip_try e f st
               = (Inr (), print (''Could not read cover image '' @ cover_href @ '' from EPUB.'') st)"
proof -
  have ne: "href \<noteq> []"
    using find_cover_href_nonempty [OF assms(4)] .
  have unfold: "zip_try e f st =
      (case read_cover z cover_href of
         Inl err \<Rightarrow> (Inl err, st)
       | Inr None \<Rightarrow>
           (Inr (), print (''Could not read cover image '' @ cover_href @ '' from EPUB.'') st)
       | Inr (Some (image_data, cover_href')) \<Rightarrow> materialize e f cover_href' image_data st)"
    by (simp add: zip_try_def assms(1) assms(2) assms(3) assms(4) ne assms(5) [symmetric])
  show ?thesis
  proof (cases "List.find (\<lambda>name. endswith (lower name) (lower (basename cover_href))) (namelist z)")
    case None
    with read_cover_scan [OF assms(6)] have "read_cover z cover_href = Inr None" by simp
    with None show ?thesis by (simp add: unfold)
  next
    case (Some name)
    with read_cover_scan [OF assms(6)] obtain d where
      d: "zip_read z name = Some d" "read_cover z cover_href = Inr (Some (d, name))" by auto
    have eq: "zip_try e f st = materialize e f name d st"
      by (simp add: unfold d(2))
    show ?thesis
      using Some d(1) eq materialize_stdout [of e f name d st cover_href] by simp
  qed
qed



lemma materialize_no_extension:
  assumes "image_open e image_data = Inl err"
    and "snd (splitext cover_href) = []"
    and "guess_type e cover_href = None"
  shows "materialize e input_file cover_href image_data st
           = (Inl (AttributeError ''NoneType object has no attribute lower''), st)"
  by (simp add: materialize_def guess_extension_def assms)

lemma materialize_raw_with_extension:
  assumes "image_open e image_data = Inl err"
    and "snd (splitext cover_href) \<noteq> []"
  shows "materialize e input_file cover_href image_data st
           = (Inr (),
              print (''Done, your cover photo has been saved as ''
                     @ fst (splitext input_file) @ snd (splitext cover_href) @ '' (raw bytes)'')
                (write_file (fst (splitext input_file) @ snd (splitext cover_href))
                   (Bytes image_data) st))"
  by (simp add: materialize_def assms Let_def)

section \<open>Properties of the TXT covers\<close>

lemma decode_continuation:
  "is_continuation b \<Longrightarrow> utf8_decode_ignore (b # rest) = utf8_decode_ignore rest"
  by (simp add: is_continuation_def)

lemma decode_encode_1:
  "cp < 128 \<Longrightarrow> utf8_decode_ignore (cp # rest) = cp # utf8_decode_ignore rest"
  by simp

lemma decode_encode_2:
  assumes "128 \<le> cp" "cp < 2048"
  shows "utf8_decode_ignore ((192 + cp div 64) # (128 + cp mod 64) # rest) = cp # utf8_decode_ignore rest"
proof -
  have a: "2 \<le> cp div 64" "cp div 64 < 32" using assms by auto
  have b: "cp mod 64 < 64" by simp
  have c: "cp div 64 * 64 + cp mod 64 = cp" by simp
  show ?thesis using a b c by (simp add: is_continuation_def)
qed



lemma decode_3_raw:
  assumes "q1 < 16" "q0 < 64" "r < 64" "q1 = 0 \<longrightarrow> 32 \<le> q0" "q1 = 13 \<longrightarrow> q0 < 32"
  shows "utf8_decode_ignore ((224 + q1) # (128 + q0) # (128 + r) # rest)
           = (q1 * 4096 + q0 * 64 + r) # utf8_decode_ignore rest"
  using assms by (simp add: is_continuation_def) arith

lemma decode_4_raw:
  assumes "q2 < 5" "q1 < 64" "q0 < 64" "r < 64" "q2 = 0 \<longrightarrow> 16 \<le> q1" "q2 = 4 \<longrightarrow> q1 < 16"
  shows "utf8_decode_ignore ((240 + q2) # (128 + q1) # (128 + q0) # (128 + r) # rest)
           = (q2 * 262144 + q1 * 4096 + q0 * 64 + r) # utf8_decode_ignore rest"
  using assms by (simp add: is_continuation_def) arith


lemma split_3:
  fixes cp :: nat
  shows "cp div 4096 * 4096 + cp div 64 mod 64 * 64 + cp mod 64 = cp"
proof -
  have "cp div 4096 = cp div 64 div 64" by (simp add: div_mult2_eq)
  moreover have "cp div 64 div 64 * 64 + cp div 64 mod 64 = cp div 64" by simp
  moreover have "cp div 64 * 64 + cp mod 64 = cp" by simp
  ultimately show ?thesis by linarith
qed

lemma split_4:
  fixes cp :: nat
  shows "cp div 262144 * 262144 + cp div 4096 mod 64 * 4096 + cp div 64 mod 64 * 64 + cp mod 64 = cp"
proof -
  have "cp div 262144 = cp div 4096 div 64" by (simp add: div_mult2_eq)
  moreover have "cp div 4096 div 64 * 64 + cp div 4096 mod 64 = cp div 4096" by simp
  ultimately have "cp div 262144 * 262144 + cp div 4096 mod 64 * 4096 = cp div 4096 * 4096" by linarith
  then show ?thesis using split_3 [of cp] by linarith
qed

lemma decode_encode_3:
  assumes "2048 \<le> cp" "cp < 65536" "cp < 55296 \<or> 57343 < cp"
  shows "utf8_decode_ignore ((224 + cp div 4096) # (128 + cp div 64 mod 64) # (128 + cp mod 64) # rest)
           = cp # utf8_decode_ignore rest"
proof -
  note c = split_3 [of cp]
  have b: "cp div 64 mod 64 < 64" "cp mod 64 < 64" by simp_all
  have a: "cp div 4096 < 16" using assms(2) c by linarith
  have d: "cp div 4096 = 0 \<longrightarrow> 32 \<le> cp div 64 mod 64" using assms(1) b c by linarith
  have e: "cp div 4096 = 13 \<longrightarrow> cp div 64 mod 64 < 32" using assms(2,3) b c by linarith
  show ?thesis using decode_3_raw [OF a b d e, of rest] c by simp
qed

lemma decode_encode_4:
  assumes "65536 \<le> cp" "cp < 1114112"
  shows "utf8_decode_ignore ((240 + cp div 262144) # (128 + cp div 4096 mod 64) # (128 + cp div 64 mod 64)
                             # (128 + cp mod 64) # rest)
           = cp # utf8_decode_ignore rest"
proof -
  note c = split_4 [of cp]
  have b: "cp div 4096 mod 64 < 64" "cp div 64 mod 64 < 64" "cp mod 64 < 64" by simp_all
  have a: "cp div 262144 < 5" using assms(2) c by linarith
  have d: "cp div 262144 = 0 \<longrightarrow> 16 \<le> cp div 4096 mod 64" using assms(1) b c by linarith
  have e: "cp div 262144 = 4 \<longrightarrow> cp div 4096 mod 64 < 16" using assms(2) b c by linarith
  show ?thesis using decode_4_raw [OF a b d e, of rest] c by simp
qed

lemma decode_valid:
  assumes "is_scalar cp"
  shows "utf8_decode_ignore (utf8_encode cp @ rest) = cp # utf8_decode_ignore rest"
proof -
  consider "cp < 128" | "128 \<le> cp" "cp < 2048" | "2048 \<le> cp" "cp < 65536" | "65536 \<le> cp"
    by linarith
  then show ?thesis
  proof cases
    case 1
    then show ?thesis by (simp add: utf8_encode_def)
  next
    case 2
    then show ?thesis using decode_encode_2 [of cp rest] by (simp add: utf8_encode_def)
  next
    case 3
    then have "cp < 55296 \<or> 57343 < cp" using assms by (auto simp: is_scalar_def)
    with 3 show ?thesis using decode_encode_3 [of cp rest] by (simp add: utf8_encode_def)
  next
    case 4
    then have "cp < 1114112" using assms by (auto simp: is_scalar_def)
    with 4 show ?thesis using decode_encode_4 [of cp rest] by (simp add: utf8_encode_def)
  qed
qed


lemma encode_2_raw:
  assumes "2 \<le> q" "q < 32" "r < 64"
  shows "utf8_encode (q * 64 + r) = [192 + q, 128 + r]" and "is_scalar (q * 64 + r)"
  using assms by (simp_all add: utf8_encode_def is_scalar_def)

lemma divmod64:
  fixes a r :: nat
  assumes "r < 64"
  shows "(a * 64 + r) div 64 = a" and "(a * 64 + r) mod 64 = r"
  using assms by simp_all

lemma encode_3_raw:
  assumes "q1 < 16" "q0 < 64" "r < 64" "q1 = 0 \<longrightarrow> 32 \<le> q0" "q1 = 13 \<longrightarrow> q0 < 32"
  shows "utf8_encode (q1 * 4096 + q0 * 64 + r) = [224 + q1, 128 + q0, 128 + r]"
    and "is_scalar (q1 * 4096 + q0 * 64 + r)"
proof -
  let ?cp = "q1 * 4096 + q0 * 64 + r"
  have eq: "?cp = (q1 * 64 + q0) * 64 + r" by simp
  have lo: "2048 \<le> ?cp" using assms by (cases "q1 = 0") auto
  have hi: "?cp < 65536" using assms by linarith
  have m: "?cp mod 64 = r" unfolding eq using assms(3) by (rule divmod64)
  have d64: "?cp div 64 = q1 * 64 + q0" unfolding eq using assms(3) by (rule divmod64)
  have d: "?cp div 64 mod 64 = q0" unfolding d64 using assms(2) by (rule divmod64)
  have "?cp div 4096 = ?cp div 64 div 64" by (simp add: div_mult2_eq)
  also have "\<dots> = q1" unfolding d64 using assms(2) by (rule divmod64)
  finally have dd: "?cp div 4096 = q1" .
  have "\<not> ?cp < 128" "\<not> ?cp < 2048" using lo by simp_all
  then show "utf8_encode ?cp = [224 + q1, 128 + q0, 128 + r]"
    using hi unfolding utf8_encode_def m d dd by simp
  consider "q1 < 13" | "q1 = 13" | "13 < q1" by linarith
  then have "?cp < 55296 \<or> 57343 < ?cp"
  proof cases
    case 1
    then show ?thesis using assms(2,3) by linarith
  next
    case 2
    then show ?thesis using assms(3,5) by simp
  next
    case 3
    then show ?thesis by linarith
  qed
  then show "is_scalar ?cp"
    using hi unfolding is_scalar_def by linarith
qed

lemma encode_4_raw:
  assumes "q2 < 5" "q1 < 64" "q0 < 64" "r < 64" "q2 = 0 \<longrightarrow> 16 \<le> q1" "q2 = 4 \<longrightarrow> q1 < 16"
  shows "utf8_encode (q2 * 262144 + q1 * 4096 + q0 * 64 + r) = [240 + q2, 128 + q1, 128 + q0, 128 + r]"
    and "is_scalar (q2 * 262144 + q1 * 4096 + q0 * 64 + r)"
proof -
  let ?cp = "q2 * 262144 + q1 * 4096 + q0 * 64 + r"
  have eq: "?cp = ((q2 * 64 + q1) * 64 + q0) * 64 + r" by simp
  have lo: "65536 \<le> ?cp" using assms by (cases "q2 = 0") auto
  have hi: "?cp < 1114112" using assms by linarith
  have m: "?cp mod 64 = r" unfolding eq using assms(4) by (rule divmod64)
  have d64: "?cp div 64 = (q2 * 64 + q1) * 64 + q0" unfolding eq using assms(4) by (rule divmod64)
  have d: "?cp div 64 mod 64 = q0" unfolding d64 using assms(3) by (rule divmod64)
  have "?cp div 4096 = ?cp div 64 div 64" by (simp add: div_mult2_eq)
  also have "\<dots> = q2 * 64 + q1" unfolding d64 using assms(3) by (rule divmod64)
  finally have d4096: "?cp div 4096 = q2 * 64 + q1" .
  have dm: "?cp div 4096 mod 64 = q1" unfolding d4096 using assms(2) by (rule divmod64)
  have "?cp div 262144 = ?cp div 4096 div 64" by (simp add: div_mult2_eq)
  also have "\<dots> = q2" unfolding d4096 using assms(2) by (rule divmod64)
  finally have dd: "?cp div 262144 = q2" .
  have "\<not> ?cp < 128" "\<not> ?cp < 2048" "\<not> ?cp < 65536" using lo by simp_all
  then show "utf8_encode ?cp = [240 + q2, 128 + q1, 128 + q0, 128 + r]"
    unfolding utf8_encode_def m d dm dd by simp
  show "is_scalar ?cp"
    using hi lo unfolding is_scalar_def by linarith
qed

lemma decode_invalid:
  assumes "\<forall>cp. is_scalar cp \<longrightarrow> \<not> prefix (utf8_encode cp) (b # rest)"
  shows "utf8_decode_ignore (b # rest) = utf8_decode_ignore rest"
proof -
  consider (ascii) "b < 128" | (stray) "128 \<le> b" "b < 194" | (two) "194 \<le> b" "b < 224"
    | (three) "224 \<le> b" "b < 240" | (four) "240 \<le> b" "b < 245" | (high) "245 \<le> b"
    by linarith
  then show ?thesis
  proof cases
    case ascii
    then have "is_scalar b" "utf8_encode b = [b]"
      by (simp_all add: is_scalar_def utf8_encode_def)
    with assms have False by (auto simp: prefix_def)
    then show ?thesis ..
  next
    case stray
    then show ?thesis
      by (subst utf8_decode_ignore.simps(2)) (auto simp del: utf8_decode_ignore.simps)
  next
    case high
    then show ?thesis
      by (subst utf8_decode_ignore.simps(2)) (auto simp del: utf8_decode_ignore.simps)
  next
    case two
    show ?thesis
    proof (cases rest)
      case Nil
      with two show ?thesis by simp
    next
      case (Cons ch2 s2)
      show ?thesis
      proof (cases "is_continuation ch2")
        case False
        with two Cons show ?thesis
          by (subst utf8_decode_ignore.simps(2)) (auto simp del: utf8_decode_ignore.simps)
      next
        case True
        define q where "q = b - 192"
        define r where "r = ch2 - 128"
        have b: "b = 192 + q" "ch2 = 128 + r" and bounds: "2 \<le> q" "q < 32" "r < 64"
          using two True by (auto simp: q_def r_def is_continuation_def)
        have "prefix (utf8_encode (q * 64 + r)) (b # rest)"
          using encode_2_raw(1) [OF bounds] by (simp add: b Cons)
        with assms encode_2_raw(2) [OF bounds] have False by blast
        then show ?thesis ..
      qed
    qed
  next
    case three
    show ?thesis
    proof (cases rest)
      case Nil
      with three show ?thesis by simp
    next
      case (Cons ch2 s2)
      show ?thesis
      proof (cases "\<not> is_continuation ch2 \<or> (b = 224 \<and> ch2 < 160) \<or> (b = 237 \<and> 160 \<le> ch2)")
        case True
        with three Cons show ?thesis
          by (subst utf8_decode_ignore.simps(2)) (auto simp del: utf8_decode_ignore.simps)
      next
        case good: False
        then have c2: "is_continuation ch2" by blast
        have skip2: "utf8_decode_ignore rest = utf8_decode_ignore s2"
          unfolding Cons using c2 by (rule decode_continuation)
        show ?thesis
        proof (cases s2)
          case Nil
          with three Cons good show ?thesis by (simp add: is_continuation_def)
        next
          case s2: (Cons ch3 s3)
          show ?thesis
          proof (cases "is_continuation ch3")
            case False
            have "utf8_decode_ignore (b # rest) = utf8_decode_ignore s2"
              using three Cons good False s2
              by (subst utf8_decode_ignore.simps(2)) (auto simp del: utf8_decode_ignore.simps)
            with skip2 show ?thesis by simp
          next
            case True
            define q1 where "q1 = b - 224"
            define q0 where "q0 = ch2 - 128"
            define r where "r = ch3 - 128"
            have b: "b = 224 + q1" "ch2 = 128 + q0" "ch3 = 128 + r"
              using three c2 True by (auto simp: q1_def q0_def r_def is_continuation_def)
            have bounds: "q1 < 16" "q0 < 64" "r < 64"
              using three c2 True by (auto simp: q1_def q0_def r_def is_continuation_def)
            have ov: "q1 = 0 \<longrightarrow> 32 \<le> q0" and su: "q1 = 13 \<longrightarrow> q0 < 32"
              using good three c2 unfolding q1_def q0_def is_continuation_def by linarith+
            have "prefix (utf8_encode (q1 * 4096 + q0 * 64 + r)) (b # rest)"
              using encode_3_raw(1) [OF bounds ov su] by (simp add: b Cons s2)
            with assms encode_3_raw(2) [OF bounds ov su] have False by blast
            then show ?thesis ..
          qed
        qed
      qed
    qed
  next
    case four
    show ?thesis
    proof (cases rest)
      case Nil
      with four show ?thesis by simp
    next
      case (Cons ch2 s2)
      show ?thesis
      proof (cases "\<not> is_continuation ch2 \<or> (b = 240 \<and> ch2 < 144) \<or> (b = 244 \<and> 144 \<le> ch2)")
        case True
        with four Cons show ?thesis
          by (subst utf8_decode_ignore.simps(2)) (auto simp del: utf8_decode_ignore.simps)
      next
        case good: False
        then have c2: "is_continuation ch2" by blast
        have skip2: "utf8_decode_ignore rest = utf8_decode_ignore s2"
          unfolding Cons using c2 by (rule decode_continuation)
        show ?thesis
        proof (cases s2)
          case Nil
          with four Cons good show ?thesis by (simp add: is_continuation_def)
        next
          case s2: (Cons ch3 s3)
          show ?thesis
          proof (cases "is_continuation ch3")
            case False
            have "utf8_decode_ignore (b # rest) = utf8_decode_ignore s2"
              using four Cons good False s2
              by (subst utf8_decode_ignore.simps(2)) (auto simp del: utf8_decode_ignore.simps)
            with skip2 show ?thesis by simp
          next
            case c3: True
            have skip3: "utf8_decode_ignore s2 = utf8_decode_ignore s3"
              unfolding s2 using c3 by (rule decode_continuation)
            show ?thesis
            proof (cases s3)
              case Nil
              with four Cons good s2 c3 show ?thesis by (simp add: is_continuation_def)
            next
              case s3: (Cons ch4 s4)
              show ?thesis
              proof (cases "is_continuation ch4")
                case False
                have "utf8_decode_ignore (b # rest) = utf8_decode_ignore s3"
                  using four Cons good c3 False s2 s3
                  by (subst utf8_decode_ignore.simps(2)) (auto simp del: utf8_decode_ignore.simps)
                with skip2 skip3 show ?thesis by simp
              next
                case True
                define q2 where "q2 = b - 240"
                define q1 where "q1 = ch2 - 128"
                define q0 where "q0 = ch3 - 128"
                define r where "r = ch4 - 128"
                have b: "b = 240 + q2" "ch2 = 128 + q1" "ch3 = 128 + q0" "ch4 = 128 + r"
                  using four c2 c3 True by (auto simp: q2_def q1_def q0_def r_def is_continuation_def)
                have bounds: "q2 < 5" "q1 < 64" "q0 < 64" "r < 64"
                  using four c2 c3 True by (auto simp: q2_def q1_def q0_def r_def is_continuation_def)
                have ov: "q2 = 0 \<longrightarrow> 16 \<le> q1" and su: "q2 = 4 \<longrightarrow> q1 < 16"
                  using good four c2 unfolding q2_def q1_def is_continuation_def by linarith+
                have "prefix (utf8_encode (q2 * 262144 + q1 * 4096 + q0 * 64 + r)) (b # rest)"
                  using encode_4_raw(1) [OF bounds ov su] by (simp add: b Cons s2 s3)
                with assms encode_4_raw(2) [OF bounds ov su] have False by blast
                then show ?thesis ..
              qed
            qed
          qed
        qed
      qed
    qed
  qed
qed

lemma join_with_Cons:
  "join_with sep (x # xs) = (if xs = [] then x else x @ sep @ join_with sep xs)"
  by (cases xs) simp_all

lemma dropWhile_absent: "c \<notin> set s \<Longrightarrow> dropWhile (\<lambda>x. x = c) s = s"
  by (cases s) auto

lemma rstrip_char_absent: "c \<notin> set s \<Longrightarrow> rstrip_char c s = s"
  by (simp add: rstrip_char_def dropWhile_absent)

lemma rstrip_char_one: "c \<notin> set b \<Longrightarrow> rstrip_char c (b @ [c]) = b"
  by (simp add: rstrip_char_def dropWhile_absent)

lemma readline_append: "readline f = (l, r) \<Longrightarrow> f = l @ r"
  by (induction f arbitrary: l r) (auto split: if_splits prod.splits)

lemma readline_shape:
  "readline f = (l, r) \<Longrightarrow>
     (\<exists>b. l = b @ [10] \<and> 10 \<notin> set b) \<or> (10 \<notin> set l \<and> r = [])"
proof (induction f arbitrary: l r)
  case Nil
  then show ?case by simp
next
  case (Cons c cs)
  show ?case
  proof (cases "c = 10")
    case True
    with Cons.prems show ?thesis by auto
  next
    case False
    obtain l' r' where lr: "readline cs = (l', r')" by (cases "readline cs")
    with Cons.prems False have l: "l = c # l'" and r: "r = r'" by auto
    from Cons.IH [OF lr] show ?thesis
    proof
      assume "\<exists>b. l' = b @ [10] \<and> 10 \<notin> set b"
      then obtain b where "l' = b @ [10]" "10 \<notin> set b" by blast
      with l False have "l = (c # b) @ [10] \<and> 10 \<notin> set (c # b)" by simp
      then show ?thesis by blast
    next
      assume "10 \<notin> set l' \<and> r' = []"
      with l r False show ?thesis by simp
    qed
  qed
qed

lemma readline_nonempty: "f \<noteq> [] \<Longrightarrow> fst (readline f) \<noteq> []"
  by (cases f) (auto split: prod.splits)

lemma read_lines_Nil [simp]: "read_lines n [] = []"
  by (cases n) simp_all

lemma read_lines_length: "length (read_lines n f) \<le> n"
  by (induction n arbitrary: f) (auto split: prod.splits)

lemma read_lines_nonempty: "f \<noteq> [] \<Longrightarrow> 0 < n \<Longrightarrow> read_lines n f \<noteq> []"
  using readline_nonempty [of f] by (cases n) (auto split: prod.splits)


lemma split_on_nonempty: "split_on c xs \<noteq> []"
  by (induction xs) (auto split: list.splits)

lemma split_on_absent: "c \<notin> set xs \<Longrightarrow> split_on c xs = [xs]"
  by (induction xs) auto

lemma split_on_append: "c \<notin> set b \<Longrightarrow> split_on c (b @ c # r) = b # split_on c r"
  by (induction b) auto

lemma file_lines_Nil: "file_lines [] = []"
  by (simp add: file_lines_def)

lemma file_lines_one: "t \<noteq> [] \<Longrightarrow> 10 \<notin> set t \<Longrightarrow> file_lines t = [t]"
  by (simp add: file_lines_def split_on_absent)

lemma file_lines_step: "10 \<notin> set b \<Longrightarrow> file_lines (b @ 10 # r) = b # file_lines r"
  using split_on_nonempty [of 10 r]
  by (simp add: file_lines_def split_on_append Let_def)

lemma read_lines_file_lines: "read_lines n t = take n (file_lines t)"
proof (induction n arbitrary: t)
  case 0
  then show ?case by simp
next
  case (Suc n)
  obtain l r where lr: "readline t = (l, r)" by (cases "readline t")
  have t: "t = l @ r" using readline_append [OF lr] .
  show ?case
  proof (cases "l = []")
    case True
    then have "t = []" using readline_nonempty [of t] lr by auto
    then show ?thesis by (simp add: file_lines_Nil)
  next
    case False
    then have rl: "read_lines (Suc n) t = rstrip_char 10 l # read_lines n r"
      using lr by simp
    from readline_shape [OF lr] show ?thesis
    proof
      assume "\<exists>b. l = b @ [10] \<and> 10 \<notin> set b"
      then obtain b where b: "l = b @ [10]" "10 \<notin> set b" by blast
      then have s: "rstrip_char 10 l = b" by (simp add: rstrip_char_one)
      have t': "t = b @ 10 # r" using t b(1) by simp
      have "file_lines t = b # file_lines r"
        unfolding t' using b(2) by (rule file_lines_step)
      then show ?thesis
        by (simp only: rl s Suc.IH take_Suc_Cons)
    next
      assume a: "10 \<notin> set l \<and> r = []"
      then have s: "rstrip_char 10 l = l" by (simp add: rstrip_char_absent)
      have t': "t = l" using t a by simp
      have fl: "file_lines t = [l]"
        unfolding t' using False a by (simp add: file_lines_one)
      from a have "read_lines n r = []" by simp
      then show ?thesis
        by (simp only: rl s fl) simp
    qed
  qed
qed

lemma rstrip_split:
  "\<exists>ws. s = rstrip s @ ws \<and> (\<forall>c\<in>set ws. py_isspace c)
        \<and> (rstrip s = [] \<or> \<not> py_isspace (last (rstrip s)))"
proof -
  let ?ws = "rev (takeWhile py_isspace (rev s))"
  have "rev (dropWhile py_isspace (rev s)) @ ?ws = s"
    by (metis rev_append rev_rev_ident takeWhile_dropWhile_id)
  then have a: "s = rstrip s @ ?ws"
    by (simp add: rstrip_def)
  have b: "\<forall>c\<in>set ?ws. py_isspace c"
    by (auto dest: set_takeWhileD)
  have c: "rstrip s = [] \<or> \<not> py_isspace (last (rstrip s))"
  proof (cases "dropWhile py_isspace (rev s) = []")
    case True
    then show ?thesis by (simp add: rstrip_def)
  next
    case False
    then have "\<not> py_isspace (hd (dropWhile py_isspace (rev s)))"
      by (rule hd_dropWhile)
    with False show ?thesis by (simp add: rstrip_def last_rev)
  qed
  from a b c show ?thesis by blast
qed

lemma cover_text_short:
  "length (join_with [10] ls) \<le> k \<Longrightarrow> cover_text k ls = join_with [10] ls"
  by (simp add: cover_text_def Let_def)

lemma cover_text_long:
  assumes "k < length (join_with [10] ls)"
  shows "\<exists>p ws. cover_text k ls = p @ [46, 46, 46] \<and> take k (join_with [10] ls) = p @ ws
                \<and> (\<forall>c\<in>set ws. py_isspace c) \<and> (p = [] \<or> \<not> py_isspace (last p))"
proof -
  obtain ws where ws: "take k (join_with [10] ls) = rstrip (take k (join_with [10] ls)) @ ws"
      "\<forall>c\<in>set ws. py_isspace c"
      "rstrip (take k (join_with [10] ls)) = [] \<or> \<not> py_isspace (last (rstrip (take k (join_with [10] ls))))"
    using rstrip_split [of "take k (join_with [10] ls)"] by blast
  have "cover_text k ls = rstrip (take k (join_with [10] ls)) @ [46, 46, 46]"
    using assms by (simp add: cover_text_def Let_def)
  with ws show ?thesis by blast
qed

lemma extract_txt_cover_opened:
  assumes "files st f = Some d"
  shows "extract_txt_cover e f n k st =
           (if read_lines n (translate_newlines (utf8_decode_ignore (map of_char (file_bytes e d)))) = []
            then print ''TXT file is empty; no cover created.''
                   (print (''Creating text cover image from '' @ f @ ''...'') st)
            else txt_except f
                   (render_cover e f
                      (cover_text k (read_lines n (translate_newlines
                                       (utf8_decode_ignore (map of_char (file_bytes e d))))))
                      (print (''Creating text cover image from '' @ f @ ''...'') st)))"
  by (simp add: extract_txt_cover_def txt_try_def open_text_def assms txt_except_def Let_def)

text \<open>
  C5. Let a TXT file exist with content \<open>d\<close>, let \<open>t\<close> be its bytes decoded as UTF-8 with
  the \<open>ignore\<close> handler and with newlines translated, \<open>lines\<close> the first \<open>n\<close> lines of \<open>t\<close>
  and \<open>joined\<close> these lines joined with newlines. Then \<open>lines\<close> has at most \<open>n\<close> elements, and
  \<open>extract_txt_cover\<close> reports an empty file when there is no line and otherwise renders a
  text which is \<open>joined\<close> when that has at most \<open>k\<close> characters, and else is the first \<open>k\<close>
  characters of \<open>joined\<close> without their trailing white space, followed by three full stops.
  The loop over the input files calls it with \<open>n = 20\<close> and \<open>k = 2000\<close>. The decoder turns the
  UTF-8 encoding of every scalar value into that value, and drops a byte at which no such
  encoding starts.
\<close>

theorem txt_lines_and_truncation:
  assumes "files st f = Some d"
    and "t = translate_newlines (utf8_decode_ignore (map of_char (file_bytes e d)))"
    and "lines = take n (file_lines t)"
    and "joined = join_with [10] lines"
  shows "length lines \<le> n
       \<and> (\<exists>text.
             (length joined \<le> k \<longrightarrow> text = joined)
           \<and> (k < length joined \<longrightarrow>
                 (\<exists>p ws. text = p @ [46, 46, 46] \<and> take k joined = p @ ws
                         \<and> (\<forall>c\<in>set ws. py_isspace c) \<and> (p = [] \<or> \<not> py_isspace (last p))))
           \<and> extract_txt_cover e f n k st =
                (if lines = []
                 then print ''TXT file is empty; no cover created.''
                        (print (''Creating text cover image from '' @ f @ ''...'') st)
                 else txt_except f
                        (render_cover e f text
                           (print (''Creating text cover image from '' @ f @ ''...'') st))))
       \<and> (lower (snd (splitext f)) = ''.txt'' \<longrightarrow>
             main_loop e (f # rest) st = main_loop e rest (extract_txt_cover e f 20 2000 st))
       \<and> (\<forall>cp bs. is_scalar cp \<longrightarrow>
             utf8_decode_ignore (utf8_encode cp @ bs) = cp # utf8_decode_ignore bs)
       \<and> (\<forall>b bs. (\<forall>cp. is_scalar cp \<longrightarrow> \<not> prefix (utf8_encode cp) (b # bs)) \<longrightarrow>
             utf8_decode_ignore (b # bs) = utf8_decode_ignore bs)"
proof -
  have rl: "read_lines n t = lines"
    by (simp only: read_lines_file_lines assms(3))
  have len: "length lines \<le> n"
    by (simp add: assms(3))
  have run: "extract_txt_cover e f n k st =
               (if lines = []
                then print ''TXT file is empty; no cover created.''
                       (print (''Creating text cover image from '' @ f @ ''...'') st)
                else txt_except f
                       (render_cover e f (cover_text k lines)
                          (print (''Creating text cover image from '' @ f @ ''...'') st)))"
    unfolding extract_txt_cover_opened [OF assms(1)] assms(2) [symmetric] rl ..
  have short: "length joined \<le> k \<longrightarrow> cover_text k lines = joined"
    unfolding assms(4) using cover_text_short [of lines k] by blast
  have long: "k < length joined \<longrightarrow>
                (\<exists>p ws. cover_text k lines = p @ [46, 46, 46] \<and> take k joined = p @ ws
                        \<and> (\<forall>c\<in>set ws. py_isspace c) \<and> (p = [] \<or> \<not> py_isspace (last p)))"
    unfolding assms(4) using cover_text_long [of k lines] by blast
  have rendered: "\<exists>text.
             (length joined \<le> k \<longrightarrow> text = joined)
           \<and> (k < length joined \<longrightarrow>
                 (\<exists>p ws. text = p @ [46, 46, 46] \<and> take k joined = p @ ws
                         \<and> (\<forall>c\<in>set ws. py_isspace c) \<and> (p = [] \<or> \<not> py_isspace (last p))))
           \<and> extract_txt_cover e f n k st =
                (if lines = []
                 then print ''TXT file is empty; no cover created.''
                        (print (''Creating text cover image from '' @ f @ ''...'') st)
                 else txt_except f
                        (render_cover e f text
                           (print (''Creating text cover image from '' @ f @ ''...'') st)))"
    using short long run by blast
  have loop: "lower (snd (splitext f)) = ''.txt'' \<longrightarrow>
                main_loop e (f # rest) st = main_loop e rest (extract_txt_cover e f 20 2000 st)"
    by simp
  have valid: "\<forall>cp bs. is_scalar cp \<longrightarrow>
                 utf8_decode_ignore (utf8_encode cp @ bs) = cp # utf8_decode_ignore bs"
    using decode_valid by blast
  have invalid: "\<forall>b bs. (\<forall>cp. is_scalar cp \<longrightarrow> \<not> prefix (utf8_encode cp) (b # bs)) \<longrightarrow>
                   utf8_decode_ignore (b # bs) = utf8_decode_ignore bs"
    using decode_invalid by blast
  from len rendered loop valid invalid show ?thesis by blast
qed

lemma img_size_draw_lines [simp]: "img_size (draw_lines m y h ls img) = img_size img"
  by (induction ls arbitrary: y img) simp_all

lemma render_cover_writes:
  assumes "measure_A e = Inr (w0, ch)"
    and "lines' = splitlines e (textwrap_fill e txt0 (chars_per_line w0))"
    and "0 \<le> 80 + (ch + 6) * max 1 (int (length lines'))"
  shows "render_cover e f txt0 st
           = (Inr (),
              print (''Done, your text cover has been saved as '' @ fst (splitext f) @ ''.png'')
                (write_file (fst (splitext f) @ ''.png'')
                   (Png (draw_lines 40 40 (ch + 6) lines'
                           \<lparr>img_mode = ''RGBA'',
                              img_size = (1200, 80 + (ch + 6) * max 1 (int (length lines'))),
                              img_ops = [Fill ''white'']\<rparr>))
                   st))"
  using assms(3) unfolding assms(2)
  by (simp add: render_cover_def assms(1) image_new_def Let_def)

text \<open>
  C6. For a TXT file whose decoded text is not empty, let \<open>avg_char_w\<close> be the measured
  width of \<open>A\<close> (7 when the measure is 0), \<open>char_h\<close> its height and \<open>wrapped\<close> the lines of
  the cover text wrapped to \<open>max 40 ((1200 - 2 * 40) div avg_char_w)\<close> characters. Then, the
  height \<open>2 * 40 + (char_h + 6) * max 1 (length wrapped)\<close> not being negative, the file written
  next to the input is the PNG of an image of exactly 1200 by that height.
\<close>

theorem txt_cover_dimensions:
  assumes "open_text e (files st f) = Inr content"
    and "content \<noteq> []"
    and "measure_A e = Inr (avg_char_w0, char_h)"
    and "avg_char_w = (if avg_char_w0 = 0 then 7 else avg_char_w0)"
    and "wrapped = splitlines e (textwrap_fill e (cover_text 2000 (read_lines 20 content))
                                   (max 40 ((1200 - 2 * 40) div avg_char_w)))"
    and "height = 2 * 40 + (char_h + 6) * max 1 (int (length wrapped))"
    and "0 \<le> height"
  shows "\<exists>img. files (extract_txt_cover e f 20 2000 st) (fst (splitext f) @ ''.png'') = Some (Png img)
               \<and> img_size img = (1200, height)"
proof -
  let ?st0 = "print (''Creating text cover image from '' @ f @ ''...'') st"
  have opened: "open_text e (files ?st0 f) = Inr content"
    by (simp add: assms(1))
  have lines: "read_lines 20 content \<noteq> []"
    using assms(2) by (rule read_lines_nonempty) simp
  have cpl: "chars_per_line avg_char_w0 = max 40 ((1200 - 2 * 40) div avg_char_w)"
    by (simp add: chars_per_line_def assms(4))
  have w: "wrapped = splitlines e (textwrap_fill e (cover_text 2000 (read_lines 20 content))
                                    (chars_per_line avg_char_w0))"
    by (simp only: cpl assms(5))
  have h: "height = 80 + (char_h + 6) * max 1 (int (length wrapped))"
    by (simp add: assms(6))
  have nonneg: "0 \<le> 80 + (char_h + 6) * max 1 (int (length wrapped))"
    using assms(7) by (simp only: h)
  have "txt_try e f 20 2000 ?st0
          = render_cover e f (cover_text 2000 (read_lines 20 content)) ?st0"
    using lines by (simp add: txt_try_def assms(1) Let_def)
  then show ?thesis
    unfolding extract_txt_cover_def render_cover_writes [OF assms(3) w nonneg]
    by (simp add: txt_except_def h)
qed

lemma readline_one_line: "10 \<notin> set f \<Longrightarrow> readline f = (f, [])"
  by (induction f) auto

lemma read_lines_one_line:
  "f \<noteq> [] \<Longrightarrow> 10 \<notin> set f \<Longrightarrow> 0 < n \<Longrightarrow> read_lines n f = [f]"
  by (cases n) (simp_all add: readline_one_line rstrip_char_absent)

section \<open>Properties of the loop over the input files\<close>

lemma main_loop_append:
  "main_loop e (xs @ ys) st =
     (case main_loop e xs st of
        (Some err, st') \<Rightarrow> (Some err, st')
      | (None, st') \<Rightarrow> main_loop e ys st')"
  by (induction xs arbitrary: st) (auto simp: Let_def split: prod.splits sum.splits option.splits)

lemma pdf_first_image_raises:
  "pdf_first_image e d = Inl err \<longleftrightarrow>
     pdf_reader e d = Inl err
     \<or> (pdf_reader e d = Inr [] \<and> err = IndexError ''sequence index out of range'')
     \<or> (\<exists>p ps. pdf_reader e d = Inr (p # ps)
           \<and> (pdf_write_page e p = Inl err
              \<or> (\<exists>buf. pdf_write_page e p = Inr buf
                   \<and> (convert_from_bytes e buf = Inl err
                      \<or> (convert_from_bytes e buf = Inr []
                          \<and> err = IndexError ''list index out of range'')))))"
  by (auto simp: pdf_first_image_def split: sum.splits list.splits)

text \<open>
  C9. When the files before a \<open>.pdf\<close> input have been processed without an exception and
  reading that PDF, taking its first page or rasterising it raises, the run ends there with
  that exception: the only effect of the file is the line announcing it, and the remaining
  files are not looked at. An \<open>.epub\<close> or \<open>.txt\<close> input never ends the run.
\<close>

theorem pdf_failure_aborts_run:
  assumes "lower (snd (splitext f)) = ''.pdf''"
    and "main_loop e pre st = (None, st1)"
    and "pdf_first_image e (files st1 f) = Inl err"
  shows "main_loop e (pre @ f # rest) st
           = (Some err, print (''Extracting cover photo from '' @ f @ ''...'') st1)
       \<and> (\<forall>g. lower (snd (splitext g)) = ''.epub'' \<or> lower (snd (splitext g)) = ''.txt''
              \<longrightarrow> fst (main_loop e [g] st) = None)"
proof -
  have "pdf_branch e f st1 = (Inl err, print (''Extracting cover photo from '' @ f @ ''...'') st1)"
    by (simp add: pdf_branch_def assms(3))
  then have "main_loop e (f # rest) st1
               = (Some err, print (''Extracting cover photo from '' @ f @ ''...'') st1)"
    by (simp add: assms(1))
  then have a: "main_loop e (pre @ f # rest) st
                  = (Some err, print (''Extracting cover photo from '' @ f @ ''...'') st1)"
    by (simp add: main_loop_append assms(2))
  have b: "\<forall>g. lower (snd (splitext g)) = ''.epub'' \<or> lower (snd (splitext g)) = ''.txt''
              \<longrightarrow> fst (main_loop e [g] st) = None"
    by auto
  from a b show ?thesis by simp
qed


lemma unsupported_extension_continues:
  assumes "lower (snd (splitext f)) \<notin> {''.pdf'', ''.epub'', ''.txt''}"
  shows "main_loop e (f # rest) st
           = main_loop e rest (print (''Unsupported file type for '' @ f @ ''; supported: .pdf, .epub'') st)"
  using assms by simp

text \<open>
  C8. The claim: for an input whose extension is none of \<open>.pdf\<close>, \<open>.epub\<close>, \<open>.txt\<close> the
  message names the file and the three supported extensions. The loop does go on and writes
  nothing, but the message lists \<open>.pdf, .epub\<close> only, although \<open>.txt\<close> inputs are dispatched
  to \<open>extract_txt_cover\<close>.
\<close>

theorem unsupported_message_omits_txt:
  "main_loop e [''notes.doc''] st
     = (None, print ''Unsupported file type for notes.doc; supported: .pdf, .epub'' st)
   \<and> \<not> contains ''.txt'' ''Unsupported file type for notes.doc; supported: .pdf, .epub''
   \<and> lower (snd (splitext ''notes.txt'')) = ''.txt''
   \<and> main_loop e [''notes.txt''] st = (None, extract_txt_cover e ''notes.txt'' 20 2000 st)"
  by (simp add: splitext_def lower_def lower_char_def startswith_def)

section \<open>Evaluations on the sample inputs\<close>

lemmas xml_defs = opf_package_def opf_element_def items_of_def metas_of_def detect_ns_def ns_tag_def
  findall_desc_child_def descendants_def startswith_def strip_char_def lstrip_char_def
  rstrip_char_def

lemmas eval_defs = attrib_get_def attrib_get_default_def lower_def lower_char_def
  normpath_def path_join_def endswith_def resolve_href_def

lemma demo_lib_sel:
  "xml_fromstring demo_lib = demo_fromstring"
  "zip_open demo_lib = demo_zip_open"
  "read_epub demo_lib = demo_read_epub"
  "image_open demo_lib = demo_image_open"
  "guess_type demo_lib = (\<lambda>url. None)"
  "guess_extension_str demo_lib = (\<lambda>t. if t = ''image/jpeg'' then Some ''.jpg'' else None)"
  "textsize demo_lib = (\<lambda>s. Inl (AttributeError ''ImageDraw object has no attribute textsize''))"
  "textbbox demo_lib = (\<lambda>s. (0, 3, 6, 11))"
  "textwrap_fill demo_lib = (\<lambda>s w. s)"
  "splitlines demo_lib = (\<lambda>s. if s = [] then [] else [s])"
  by (simp_all add: demo_lib_def)

lemma metas_of_opf_meta:
  "metas_of opf_meta =
     [opf_element ''meta'' [(''name'', ''generator''), (''content'', ''cvr'')] [],
      opf_element ''meta'' [(''name'', ''cover''), (''content'', ''missing'')] []]
     @ opf_element ''meta'' [(''name'', ''Cover''), (''content'', ''cvr'')] [] # []"
  by (simp add: opf_meta_def xml_defs)

lemma items_of_opf_meta:
  "items_of opf_meta =
     [opf_element ''item'' [(''id'', ''p1''), (''href'', ''page1.png''), (''media-type'', ''image/png''),
                              (''properties'', ''cover-image'')] [],
        opf_element ''item'' [(''id'', ''cvr''), (''href'', ''../images/./cover.jpg''),
                              (''media-type'', ''image/jpeg'')] []]"
  by (simp add: opf_meta_def xml_defs)

lemma manifest_of_opf_meta:
  "manifest_of opf_meta =
     [(''p1'', ''page1.png'', ''image/png'', ''cover-image''),
      (''cvr'', ''../images/./cover.jpg'', ''image/jpeg'', [])]"
  by (simp add: manifest_of_def items_of_opf_meta opf_element_def attrib_get_def attrib_get_default_def)

theorem find_cover_href_first_cover_meta_witness:
  "find_cover_href demo_lib ''opf_meta'' ''OEBPS'' = Inr (Some ''images/cover.jpg'')"
proof -
  have parse: "xml_fromstring demo_lib ''opf_meta'' = Inr opf_meta"
    by (simp add: demo_lib_sel demo_fromstring_def)
  have pre: "\<forall>m\<in>set [opf_element ''meta'' [(''name'', ''generator''), (''content'', ''cvr'')] [],
      opf_element ''meta'' [(''name'', ''cover''), (''content'', ''missing'')] []].
      \<not> cover_meta_resolves (manifest_of opf_meta) m"
    by (simp add: manifest_of_opf_meta cover_meta_resolves_def opf_element_def attrib_get_def
          attrib_get_default_def lower_def lower_char_def)
  have name: "lower (attrib_get_default (opf_element ''meta'' [(''name'', ''Cover''), (''content'', ''cvr'')] [])
                 ''name'' []) = ''cover''"
    by (simp add: opf_element_def attrib_get_def attrib_get_default_def lower_def lower_char_def)
  have content: "attrib_get (opf_element ''meta'' [(''name'', ''Cover''), (''content'', ''cvr'')] []) ''content''
                   = Some ''cvr''"
    by (simp add: opf_element_def attrib_get_def)
  have item: "List.find (\<lambda>it. item_valid it \<and> attrib_get it ''id'' = Some ''cvr'') (rev (items_of opf_meta))
                = Some (opf_element ''item'' [(''id'', ''cvr''), (''href'', ''../images/./cover.jpg''),
                              (''media-type'', ''image/jpeg'')] [])"
    by (simp add: items_of_opf_meta item_valid_def opf_element_def attrib_get_def)
  have href: "attrib_get (opf_element ''item'' [(''id'', ''cvr''), (''href'', ''../images/./cover.jpg''),
                              (''media-type'', ''image/jpeg'')] []) ''href'' = Some ''../images/./cover.jpg''"
    by (simp add: opf_element_def attrib_get_def)
  have norm: "normpath (path_join ''OEBPS'' ''../images/./cover.jpg'') = ''images/cover.jpg''"
    by (simp add: normpath_def path_join_def startswith_def endswith_def)
  show ?thesis
    using find_cover_href_first_cover_meta [OF parse metas_of_opf_meta pre name content item href,
        of "''OEBPS''"]
    by (simp only: norm)
qed

lemma metas_of_opf_two:
  "metas_of opf_two =
     [opf_element ''meta'' [(''name'', ''cover''), (''content'', ''a'')] [],
      opf_element ''meta'' [(''name'', ''cover''), (''content'', ''b'')] []]"
  by (simp add: opf_two_def xml_defs)

lemma items_of_opf_two:
  "items_of opf_two =
     [opf_element ''item'' [(''id'', ''a''), (''href'', ''a.jpg''), (''media-type'', ''image/jpeg'')] [],
      opf_element ''item'' [(''id'', ''b''), (''href'', ''b.jpg''), (''media-type'', ''image/jpeg'')] []]"
  by (simp add: opf_two_def xml_defs)

lemma find_cover_href_opf_two:
  "find_cover_href demo_lib ''opf_two'' ''OEBPS'' = Inr (Some ''OEBPS/a.jpg'')"
  by (simp add: find_cover_href_def find_cover_href_tree_def demo_lib_sel demo_fromstring_def
        manifest_of_def metas_of_opf_two items_of_opf_two opf_element_def startswith_def eval_defs)

text \<open>
  With two cover meta entries that both name manifest items, the item of the second one is
  not the one returned: the first entry that resolves wins.
\<close>

theorem find_cover_href_any_cover_meta_counterexample:
  "xml_fromstring demo_lib ''opf_two'' = Inr opf_two
   \<and> opf_element ''meta'' [(''name'', ''cover''), (''content'', ''b'')] [] \<in> set (metas_of opf_two)
   \<and> lower (attrib_get_default (opf_element ''meta'' [(''name'', ''cover''), (''content'', ''b'')] [])
              ''name'' []) = ''cover''
   \<and> attrib_get (opf_element ''meta'' [(''name'', ''cover''), (''content'', ''b'')] []) ''content'' = Some ''b''
   \<and> opf_element ''item'' [(''id'', ''b''), (''href'', ''b.jpg''), (''media-type'', ''image/jpeg'')] []
        \<in> set (items_of opf_two)
   \<and> attrib_get (opf_element ''item'' [(''id'', ''b''), (''href'', ''b.jpg''), (''media-type'', ''image/jpeg'')] [])
        ''id'' = Some ''b''
   \<and> attrib_get (opf_element ''item'' [(''id'', ''b''), (''href'', ''b.jpg''), (''media-type'', ''image/jpeg'')] [])
        ''href'' = Some ''b.jpg''
   \<and> find_cover_href demo_lib ''opf_two'' ''OEBPS'' = Inr (Some ''OEBPS/a.jpg'')
   \<and> find_cover_href demo_lib ''opf_two'' ''OEBPS''
        \<noteq> Inr (Some (normpath (path_join ''OEBPS'' ''b.jpg'')))"
  by (simp add: find_cover_href_opf_two metas_of_opf_two items_of_opf_two demo_lib_sel demo_fromstring_def
        opf_element_def startswith_def eval_defs)

lemma metas_of_opf_chain:
  "metas_of opf_chain = [opf_element ''meta'' [(''name'', ''cover''), (''content'', ''missing'')] []]"
  by (simp add: opf_chain_def xml_defs)

lemma manifest_of_opf_chain:
  "manifest_of opf_chain =
     [(''p1'', ''page1.png'', ''image/png'', []),
      (''c2'', ''Cover.jpg'', ''image/jpeg'', []),
      (''c3'', ''front.svg'', ''image/svg+xml'', ''cover-image'')]"
  by (simp add: manifest_of_def opf_chain_def xml_defs attrib_get_def attrib_get_default_def)

theorem find_cover_href_priority_chain_witness:
  "find_cover_href demo_lib ''opf_chain'' ''OEBPS'' = Inr (Some ''OEBPS/front.svg'')"
proof -
  have parse: "xml_fromstring demo_lib ''opf_chain'' = Inr opf_chain"
    by (simp add: demo_lib_sel demo_fromstring_def)
  have nometa: "\<forall>m\<in>set (metas_of opf_chain). \<not> cover_meta_resolves (manifest_of opf_chain) m"
    by (simp add: metas_of_opf_chain manifest_of_opf_chain cover_meta_resolves_def opf_element_def
          attrib_get_def attrib_get_default_def)
  show ?thesis
    using find_cover_href_priority_chain [OF parse nometa, of "''OEBPS''"]
    by (simp add: manifest_of_opf_chain has_cover_image_prop_def is_cover_named_image_def is_image_def
          startswith_def eval_defs)
qed

lemma demo_rootfile_noimg:
  "get_rootfile_path demo_lib (demo_archive ''opf_noimg'' [(''OEBPS/ch1.xhtml'', ''text'')])
     = Inr ''OEBPS/content.opf''"
  by (simp add: get_rootfile_path_def demo_archive_def zip_read_def demo_lib_sel demo_fromstring_def
        demo_container_def find_desc_any_ns_def find_desc_def descendants_def endswith_def attrib_get_def)

lemma metas_of_opf_noimg:
  "metas_of opf_noimg = [opf_element ''meta'' [(''name'', ''cover''), (''content'', ''missing'')] []]"
  by (simp add: opf_noimg_def xml_defs)

lemma manifest_of_opf_noimg:
  "manifest_of opf_noimg =
     [(''ncx'', ''toc.ncx'', ''application/x-dtbncx+xml'', []),
      (''ch1'', ''ch1.xhtml'', ''application/xhtml+xml'', [])]"
  by (simp add: manifest_of_def opf_noimg_def xml_defs attrib_get_def attrib_get_default_def)

lemma splitext_book: "splitext ''book.epub'' = (''book'', ''.epub'')"
  by (simp add: splitext_def)

theorem no_image_no_cover_witness:
  "files (extract_epub_cover demo_lib ''book.epub'' (demo_world [(''book.epub'', Bytes ''epub_noimg'')]))
     = files (demo_world [(''book.epub'', Bytes ''epub_noimg'')])
   \<and> stdout (extract_epub_cover demo_lib ''book.epub'' (demo_world [(''book.epub'', Bytes ''epub_noimg'')]))
     = [''Extracting cover photo from book.epub...'',
        ''EbookLib extraction failed, falling back to zip parsing: Bad Zip file'',
        ''Cover image not found in EPUB manifest.'']
   \<and> main_loop demo_lib [''book.epub''] (demo_world [(''book.epub'', Bytes ''epub_noimg'')])
     = (None, extract_epub_cover demo_lib ''book.epub'' (demo_world [(''book.epub'', Bytes ''epub_noimg'')]))"
proof -
  let ?w = "demo_world [(''book.epub'', Bytes ''epub_noimg'')]"
  let ?z = "demo_archive ''opf_noimg'' [(''OEBPS/ch1.xhtml'', ''text'')]"
  have h1: "ebooklib_try demo_lib ''book.epub'' (print (''Extracting cover photo from '' @ ''book.epub'' @ ''...'') ?w)
              = (Inl (LibError ''Bad Zip file''),
                 print (''Extracting cover photo from '' @ ''book.epub'' @ ''...'') ?w)"
    by (simp add: ebooklib_try_def demo_lib_sel demo_read_epub_def demo_world_def)
  have h2: "(Inl (LibError ''Bad Zip file'') :: exn + flow) \<noteq> Inr Returned"
    by simp
  have h3: "zip_open demo_lib (files ?w ''book.epub'') = Inr ?z"
    by (simp add: demo_lib_sel demo_zip_open_def demo_world_def)
  have h5: "zip_read ?z ''OEBPS/content.opf'' = Some ''opf_noimg''"
    by (simp add: zip_read_def demo_archive_def)
  have h6: "xml_fromstring demo_lib ''opf_noimg'' = Inr opf_noimg"
    by (simp add: demo_lib_sel demo_fromstring_def)
  have h7: "\<forall>m\<in>set (metas_of opf_noimg). \<not> cover_meta_resolves (manifest_of opf_noimg) m"
    by (simp add: metas_of_opf_noimg manifest_of_opf_noimg cover_meta_resolves_def opf_element_def
          attrib_get_def attrib_get_default_def)
  have h8: "\<forall>x\<in>set (manifest_of opf_noimg). \<not> has_cover_image_prop x \<and> \<not> is_image x"
    by (simp add: manifest_of_opf_noimg has_cover_image_prop_def is_image_def startswith_def)
  have h9: "lower (snd (splitext ''book.epub'')) = ''.epub''"
    by (simp add: splitext_book lower_def lower_char_def)
  show ?thesis
    using no_image_no_cover [OF h1 h2 h3 demo_rootfile_noimg h5 h6 h7 h8 h9, of "[]"]
    by (simp add: zip_start_def demo_world_def)
qed


lemma find_cover_href_opf_meta:
  "find_cover_href demo_lib ''opf_meta'' ''OEBPS'' = Inr (Some ''images/cover.jpg'')"
  by (simp add: find_cover_href_def find_cover_href_tree_def demo_lib_sel demo_fromstring_def
        manifest_of_opf_meta metas_of_opf_meta opf_element_def startswith_def eval_defs)

lemma dirname_content_opf: "dirname ''OEBPS/content.opf'' = ''OEBPS''"
  by (simp add: dirname_def rstrip_char_def)

lemma demo_rootfile_moved:
  "get_rootfile_path demo_lib
     (demo_archive ''opf_meta'' [(''OEBPS/page1.png'', ''PNG''), (''Images/COVER.JPG'', ''JPEG'')])
     = Inr ''OEBPS/content.opf''"
  by (simp add: get_rootfile_path_def demo_archive_def zip_read_def demo_lib_sel demo_fromstring_def
        demo_container_def find_desc_any_ns_def find_desc_def descendants_def endswith_def attrib_get_def)

lemma demo_rootfile_lost:
  "get_rootfile_path demo_lib (demo_archive ''opf_meta'' [(''OEBPS/page1.png'', ''PNG'')])
     = Inr ''OEBPS/content.opf''"
  by (simp add: get_rootfile_path_def demo_archive_def zip_read_def demo_lib_sel demo_fromstring_def
        demo_container_def find_desc_any_ns_def find_desc_def descendants_def endswith_def attrib_get_def)

lemma lower_accent: "lower [CHR 0xC9] = [CHR 0xE9]"
  by (simp add: lower_def lower_char_def)

lemma metas_of_opf_accent:
  "metas_of opf_accent = [opf_element ''meta'' [(''name'', ''cover''), (''content'', ''cvr'')] []]"
  by (simp add: opf_accent_def xml_defs)

lemma manifest_of_opf_accent:
  "manifest_of opf_accent = [(''cvr'', ''caf'' @ [CHR 0xE9] @ ''.jxl'', ''image/jxl'', [])]"
  by (simp add: manifest_of_def opf_accent_def xml_defs attrib_get_def attrib_get_default_def)

lemma find_cover_href_opf_accent:
  "find_cover_href demo_lib ''opf_accent'' ''OEBPS'' = Inr (Some (''OEBPS/caf'' @ [CHR 0xE9] @ ''.jxl''))"
  by (simp add: find_cover_href_def find_cover_href_tree_def demo_lib_sel demo_fromstring_def
        manifest_of_opf_accent metas_of_opf_accent opf_element_def startswith_def eval_defs)

lemma demo_rootfile_accent:
  "get_rootfile_path demo_lib (demo_archive ''opf_accent'' [(''Images/CAF'' @ [CHR 0xC9] @ ''.JXL'', ''JXL'')])
     = Inr ''OEBPS/content.opf''"
  by (simp add: get_rootfile_path_def demo_archive_def zip_read_def demo_lib_sel demo_fromstring_def
        demo_container_def find_desc_any_ns_def find_desc_def descendants_def endswith_def attrib_get_def)

lemma accent_written:
  "files (snd (materialize demo_lib ''book.epub'' (''Images/CAF'' @ [CHR 0xC9] @ ''.JXL'') ''JXL''
                 (demo_world [(''book.epub'', Bytes ''epub_accent'')]))) ''book.JXL''
     = Some (Bytes ''JXL'')"
  by (simp add: materialize_def demo_lib_sel demo_image_open_def splitext_def Let_def)


theorem missing_cover_member_scan_witness:
  "zip_try demo_lib ''book.epub'' (demo_world [(''book.epub'', Bytes ''epub_moved'')])
     = materialize demo_lib ''book.epub'' ''Images/COVER.JPG'' ''JPEG''
         (demo_world [(''book.epub'', Bytes ''epub_moved'')])
   \<and> zip_try demo_lib ''book.epub'' (demo_world [(''book.epub'', Bytes ''epub_lost'')])
     = (Inr (), print ''Could not read cover image images/cover.jpg from EPUB.''
                  (demo_world [(''book.epub'', Bytes ''epub_lost'')]))
   \<and> zip_try demo_lib ''book.epub'' (demo_world [(''book.epub'', Bytes ''epub_accent'')])
     = materialize demo_lib ''book.epub'' (''Images/CAF'' @ [CHR 0xC9] @ ''.JXL'') ''JXL''
         (demo_world [(''book.epub'', Bytes ''epub_accent'')])"
proof -
  let ?w = "demo_world [(''book.epub'', Bytes ''epub_moved'')]"
  let ?z = "demo_archive ''opf_meta'' [(''OEBPS/page1.png'', ''PNG''), (''Images/COVER.JPG'', ''JPEG'')]"
  let ?w' = "demo_world [(''book.epub'', Bytes ''epub_lost'')]"
  let ?z' = "demo_archive ''opf_meta'' [(''OEBPS/page1.png'', ''PNG'')]"
  let ?w'' = "demo_world [(''book.epub'', Bytes ''epub_accent'')]"
  let ?z'' = "demo_archive ''opf_accent'' [(''Images/CAF'' @ [CHR 0xC9] @ ''.JXL'', ''JXL'')]"
  have href: "find_cover_href demo_lib ''opf_meta'' (dirname ''OEBPS/content.opf'')
                = Inr (Some ''images/cover.jpg'')"
    by (simp only: dirname_content_opf find_cover_href_opf_meta)
  have cover: "''images/cover.jpg'' = replace_char (CHR 0x5C) CHR ''/'' ''images/cover.jpg''"
    by (simp add: replace_char_def)
  have a1: "zip_open demo_lib (files ?w ''book.epub'') = Inr ?z"
    by (simp add: demo_lib_sel demo_zip_open_def demo_world_def)
  have a3: "zip_read ?z ''OEBPS/content.opf'' = Some ''opf_meta''"
    by (simp add: zip_read_def demo_archive_def)
  have a6: "zip_read ?z ''images/cover.jpg'' = None"
    by (simp add: zip_read_def demo_archive_def)
  have b1: "zip_open demo_lib (files ?w' ''book.epub'') = Inr ?z'"
    by (simp add: demo_lib_sel demo_zip_open_def demo_world_def)
  have b3: "zip_read ?z' ''OEBPS/content.opf'' = Some ''opf_meta''"
    by (simp add: zip_read_def demo_archive_def)
  have b6: "zip_read ?z' ''images/cover.jpg'' = None"
    by (simp add: zip_read_def demo_archive_def)
  have href'': "find_cover_href demo_lib ''opf_accent'' (dirname ''OEBPS/content.opf'')
                = Inr (Some (''OEBPS/caf'' @ [CHR 0xE9] @ ''.jxl''))"
    by (simp only: dirname_content_opf find_cover_href_opf_accent)
  have cover'': "''OEBPS/caf'' @ [CHR 0xE9] @ ''.jxl''
                 = replace_char (CHR 0x5C) CHR ''/'' (''OEBPS/caf'' @ [CHR 0xE9] @ ''.jxl'')"
    by (simp add: replace_char_def)
  have c1: "zip_open demo_lib (files ?w'' ''book.epub'') = Inr ?z''"
    by (simp add: demo_lib_sel demo_zip_open_def demo_world_def)
  have c3: "zip_read ?z'' ''OEBPS/content.opf'' = Some ''opf_accent''"
    by (simp add: zip_read_def demo_archive_def)
  have c6: "zip_read ?z'' (''OEBPS/caf'' @ [CHR 0xE9] @ ''.jxl'') = None"
    by (simp add: zip_read_def demo_archive_def)
  have moved: "zip_try demo_lib ''book.epub'' ?w
                 = materialize demo_lib ''book.epub'' ''Images/COVER.JPG'' ''JPEG'' ?w"
    using missing_cover_member_scan [OF a1 demo_rootfile_moved a3 href cover a6]
    by (simp add: namelist_def demo_archive_def zip_read_def basename_def endswith_def
          lower_def lower_char_def)
  have lost: "zip_try demo_lib ''book.epub'' ?w'
                = (Inr (), print ''Could not read cover image images/cover.jpg from EPUB.'' ?w')"
    using missing_cover_member_scan [OF b1 demo_rootfile_lost b3 href cover b6]
    by (simp add: namelist_def demo_archive_def basename_def endswith_def lower_def lower_char_def)
  have accent: "zip_try demo_lib ''book.epub'' ?w''
                 = materialize demo_lib ''book.epub'' (''Images/CAF'' @ [CHR 0xC9] @ ''.JXL'') ''JXL'' ?w''"
    using missing_cover_member_scan [OF c1 demo_rootfile_accent c3 href'' cover'' c6]
    by (simp add: namelist_def demo_archive_def zip_read_def basename_def endswith_def
          lower_def lower_char_def)
  show ?thesis
    using moved lost accent by simp
qed

lemma demo_rootfile_noext:
  "get_rootfile_path demo_lib (demo_archive ''opf_noext'' [(''OEBPS/images/cover'', ''JXL'')])
     = Inr ''OEBPS/content.opf''"
  by (simp add: get_rootfile_path_def demo_archive_def zip_read_def demo_lib_sel demo_fromstring_def
        demo_container_def find_desc_any_ns_def find_desc_def descendants_def endswith_def attrib_get_def)

lemma metas_of_opf_noext:
  "metas_of opf_noext = [opf_element ''meta'' [(''name'', ''cover''), (''content'', ''cvr'')] []]"
  by (simp add: opf_noext_def xml_defs)

lemma manifest_of_opf_noext:
  "manifest_of opf_noext = [(''cvr'', ''images/cover'', ''application/octet-stream'', [])]"
  by (simp add: manifest_of_def opf_noext_def xml_defs attrib_get_def attrib_get_default_def)

lemma find_cover_href_opf_noext:
  "find_cover_href demo_lib ''opf_noext'' ''OEBPS'' = Inr (Some ''OEBPS/images/cover'')"
  by (simp add: find_cover_href_def find_cover_href_tree_def demo_lib_sel demo_fromstring_def
        manifest_of_opf_noext metas_of_opf_noext opf_element_def startswith_def eval_defs)

lemma ebooklib_try_noext:
  "ebooklib_try demo_lib ''book.epub'' (print s (demo_world [(''book.epub'', Bytes ''epub_noext'')]))
     = (Inr FellThrough, print s (demo_world [(''book.epub'', Bytes ''epub_noext'')]))"
  by (simp add: ebooklib_try_def demo_lib_sel demo_read_epub_def demo_world_def startswith_def)

lemma zip_try_noext:
  "zip_try demo_lib ''book.epub'' (print s (demo_world [(''book.epub'', Bytes ''epub_noext'')]))
     = (Inl (AttributeError ''NoneType object has no attribute lower''),
        print s (demo_world [(''book.epub'', Bytes ''epub_noext'')]))"
proof -
  let ?w = "print s (demo_world [(''book.epub'', Bytes ''epub_noext'')])"
  let ?z = "demo_archive ''opf_noext'' [(''OEBPS/images/cover'', ''JXL'')]"
  have z: "zip_open demo_lib (files (demo_world [(''book.epub'', Bytes ''epub_noext'')]) ''book.epub'')
             = Inr ?z"
    by (simp add: demo_lib_sel demo_zip_open_def demo_world_def)
  have opf: "zip_read ?z ''OEBPS/content.opf'' = Some ''opf_noext''"
    by (simp add: zip_read_def demo_archive_def)
  have rc: "read_cover ?z ''OEBPS/images/cover'' = Inr (Some (''JXL'', ''OEBPS/images/cover''))"
    by (simp add: read_cover_def zip_read_def demo_archive_def)
  have m: "materialize demo_lib ''book.epub'' ''OEBPS/images/cover'' ''JXL'' ?w
             = (Inl (AttributeError ''NoneType object has no attribute lower''), ?w)"
    by (rule materialize_no_extension [where err = "LibError ''cannot identify image file''"])
       (simp_all add: demo_lib_sel demo_image_open_def splitext_def)
  show ?thesis
    by (simp add: zip_try_def z demo_rootfile_noext opf dirname_content_opf find_cover_href_opf_noext
          replace_char_def rc m)
qed

text \<open>
  C4. The claim: whenever cover bytes are obtained and Pillow cannot decode them, the bytes
  are written unchanged to a file whose extension comes from the href or file name, else from
  the media type, else is \<open>.img\<close>. In the zip path this fails for a cover href without an
  extension: \<open>mimetypes.guess_type\<close> gives \<open>None\<close>, \<open>mimetypes.guess_extension(None)\<close>
  raises, and the handler of the zip path prints an error. On the book below the cover bytes
  \<open>JXL\<close> are read from the archive and not decoded, and no file is written.
\<close>

theorem undecodable_cover_without_extension:
  "files (extract_epub_cover demo_lib ''book.epub'' (demo_world [(''book.epub'', Bytes ''epub_noext'')]))
     = files (demo_world [(''book.epub'', Bytes ''epub_noext'')])
   \<and> stdout (extract_epub_cover demo_lib ''book.epub'' (demo_world [(''book.epub'', Bytes ''epub_noext'')]))
     = [''Extracting cover photo from book.epub...'',
        ''Error extracting EPUB cover from book.epub: NoneType object has no attribute lower'']
   \<and> read_cover (demo_archive ''opf_noext'' [(''OEBPS/images/cover'', ''JXL'')]) ''OEBPS/images/cover''
     = Inr (Some (''JXL'', ''OEBPS/images/cover''))
   \<and> image_open demo_lib ''JXL'' = Inl (LibError ''cannot identify image file'')"
proof -
  let ?w = "demo_world [(''book.epub'', Bytes ''epub_noext'')]"
  have run: "extract_epub_cover demo_lib ''book.epub'' ?w
               = print ''Error extracting EPUB cover from book.epub: NoneType object has no attribute lower''
                   (print ''Extracting cover photo from book.epub...'' ?w)"
    by (simp add: extract_epub_cover_def ebooklib_try_noext zip_start_def zip_try_noext)
  have out: "stdout ?w = []"
    by (simp add: demo_world_def)
  have rc: "read_cover (demo_archive ''opf_noext'' [(''OEBPS/images/cover'', ''JXL'')]) ''OEBPS/images/cover''
              = Inr (Some (''JXL'', ''OEBPS/images/cover''))"
    by (simp add: read_cover_def zip_read_def demo_archive_def)
  have dec: "image_open demo_lib ''JXL'' = Inl (LibError ''cannot identify image file'')"
    by (simp add: demo_lib_sel demo_image_open_def)
  show ?thesis
    by (simp add: run out rc dec)
qed

lemma splitext_notes: "splitext ''notes.txt'' = (''notes'', ''.txt'')"
  by (simp add: splitext_def)

lemma demo_txt_sel:
  "png_encode demo_lib = (\<lambda>img. ''PNG'')"
  "textsize demo_lib = (\<lambda>s. Inl (AttributeError ''ImageDraw object has no attribute textsize''))"
  "textbbox demo_lib = (\<lambda>s. (0, 3, 6, 11))"
  "textwrap_fill demo_lib = (\<lambda>s w. s)"
  "splitlines demo_lib = (\<lambda>s. if s = [] then [] else [s])"
  by (simp_all add: demo_lib_def)

lemma measure_A_demo: "measure_A demo_lib = Inr (6, 8)"
  by (simp add: measure_A_def demo_txt_sel)

theorem txt_cover_dimensions_witness:
  "\<exists>img. files (extract_txt_cover demo_lib ''notes.txt'' 20 2000
                  (demo_world [(''notes.txt'', Bytes ''Hello world'')])) ''notes.png'' = Some (Png img)
         \<and> img_size img = (1200, 94)"
proof -
  let ?w = "demo_world [(''notes.txt'', Bytes ''Hello world'')]"
  let ?hello = "[72, 101, 108, 108, 111, 32, 119, 111, 114, 108, 100] :: nat list"
  have a1: "open_text demo_lib (files ?w ''notes.txt'') = Inr ?hello"
    by (simp add: open_text_def file_bytes_def demo_world_def)
  have a2: "?hello \<noteq> []"
    by simp
  have a4: "(6::int) = (if (6::int) = 0 then 7 else 6)"
    by simp
  have one: "read_lines 20 ?hello = [?hello]"
    by (rule read_lines_one_line) simp_all
  have a5: "[?hello]
              = splitlines demo_lib (textwrap_fill demo_lib (cover_text 2000 (read_lines 20 ?hello))
                                       (max 40 ((1200 - 2 * 40) div 6)))"
    by (simp add: one cover_text_def demo_txt_sel)
  have a6: "(94::int) = 2 * 40 + (8 + 6) * max 1 (int (length [?hello]))"
    by simp
  have a7: "(0::int) \<le> 94"
    by simp
  show ?thesis
    using txt_cover_dimensions [OF a1 a2 measure_A_demo a4 a5 a6 a7]
    by (simp add: splitext_notes)
qed

lemma notes_text:
  "translate_newlines (utf8_decode_ignore (map of_char notes_bytes))
     = [72, 105, 233, 10, 98, 121, 101, 10, 120]"
  by (simp add: notes_bytes_def is_continuation_def)

lemma notes_lines:
  "take 2 (file_lines [72, 105, 233, 10, 98, 121, 101, 10, 120]) = [[72, 105, 233], [98, 121, 101]]"
  by (simp add: file_lines_def)

theorem txt_lines_and_truncation_witness:
  "take 2 (file_lines (translate_newlines (utf8_decode_ignore (map of_char notes_bytes))))
     = [[72, 105, 233], [98, 121, 101]]
   \<and> (\<exists>text.
         (\<exists>p ws. text = p @ [46, 46, 46] \<and> take 5 [72, 105, 233, 10, 98, 121, 101] = p @ ws
                 \<and> (\<forall>c\<in>set ws. py_isspace c) \<and> (p = [] \<or> \<not> py_isspace (last p)))
       \<and> extract_txt_cover demo_lib ''notes.txt'' 2 5 (demo_world [(''notes.txt'', Bytes notes_bytes)])
           = txt_except ''notes.txt''
               (render_cover demo_lib ''notes.txt'' text
                  (print ''Creating text cover image from notes.txt...''
                     (demo_world [(''notes.txt'', Bytes notes_bytes)]))))
   \<and> main_loop demo_lib [''notes.txt''] (demo_world [(''notes.txt'', Bytes notes_bytes)])
       = (None, extract_txt_cover demo_lib ''notes.txt'' 20 2000
                  (demo_world [(''notes.txt'', Bytes notes_bytes)]))"
proof -
  let ?w = "demo_world [(''notes.txt'', Bytes notes_bytes)]"
  have present: "files ?w ''notes.txt'' = Some (Bytes notes_bytes)"
    by (simp add: demo_world_def)
  have t: "[72, 105, 233, 10, 98, 121, 101, 10, 120]
             = translate_newlines (utf8_decode_ignore (map of_char (file_bytes demo_lib (Bytes notes_bytes))))"
    by (simp add: file_bytes_def notes_text)
  have ls: "[[72, 105, 233], [98, 121, 101]] = take 2 (file_lines [72, 105, 233, 10, 98, 121, 101, 10, 120])"
    by (simp only: notes_lines)
  have j: "[72, 105, 233, 10, 98, 121, 101] = join_with [10] [[72, 105, 233], [98, 121, 101 :: nat]]"
    by simp
  have ext: "lower (snd (splitext ''notes.txt'')) = ''.txt''"
    by (simp add: splitext_notes lower_def lower_char_def)
  note inst = txt_lines_and_truncation [OF present t ls j, of 5 "[]"]
  let ?J = "[72, 105, 233, 10, 98, 121, 101] :: nat list"
  let ?st0 = "print (''Creating text cover image from '' @ ''notes.txt'' @ ''...'') ?w"
  from inst obtain tx where
    long: "5 < length ?J \<longrightarrow>
             (\<exists>p ws. tx = p @ [46, 46, 46] \<and> take 5 ?J = p @ ws
                     \<and> (\<forall>c\<in>set ws. py_isspace c) \<and> (p = [] \<or> \<not> py_isspace (last p)))"
    and run: "extract_txt_cover demo_lib ''notes.txt'' 2 5 ?w =
                (if [[72, 105, 233], [98, 121, 101 :: nat]] = []
                 then print ''TXT file is empty; no cover created.'' ?st0
                 else txt_except ''notes.txt'' (render_cover demo_lib ''notes.txt'' tx ?st0))"
    by blast
  from inst have loop: "lower (snd (splitext ''notes.txt'')) = ''.txt'' \<longrightarrow>
      main_loop demo_lib (''notes.txt'' # []) ?w
        = main_loop demo_lib [] (extract_txt_cover demo_lib ''notes.txt'' 20 2000 ?w)"
    by blast
  have c1: "take 2 (file_lines (translate_newlines (utf8_decode_ignore (map of_char notes_bytes))))
              = [[72, 105, 233], [98, 121, 101]]"
    by (simp only: notes_text notes_lines)
  from long have c2a: "\<exists>p ws. tx = p @ [46, 46, 46] \<and> take 5 ?J = p @ ws
                     \<and> (\<forall>c\<in>set ws. py_isspace c) \<and> (p = [] \<or> \<not> py_isspace (last p))"
    by simp
  from run have c2b: "extract_txt_cover demo_lib ''notes.txt'' 2 5 ?w
      = txt_except ''notes.txt''
          (render_cover demo_lib ''notes.txt'' tx
             (print ''Creating text cover image from notes.txt...'' ?w))"
    by simp
  from loop ext have c3: "main_loop demo_lib [''notes.txt''] ?w
      = (None, extract_txt_cover demo_lib ''notes.txt'' 20 2000 ?w)"
    by (simp del: main_loop.simps(2))
  from c1 c2a c2b c3 show ?thesis by blast
qed

lemma demo_pdf_sel:
  "pdf_reader demo_lib = (\<lambda>d. if d = Some (Bytes ''pdf'') then Inr [''page1'', ''page2'']
                                 else Inl (LibError ''EOF marker not found''))"
  by (simp add: demo_lib_def)

theorem pdf_failure_aborts_run_witness:
  "main_loop demo_lib ([''notes.doc''] @ ''scan.pdf'' # [''notes.txt''])
     (demo_world [(''scan.pdf'', Bytes ''truncated''), (''notes.txt'', Bytes ''Hello world'')])
     = (Some (LibError ''EOF marker not found''),
        print ''Extracting cover photo from scan.pdf...''
          (print ''Unsupported file type for notes.doc; supported: .pdf, .epub''
             (demo_world [(''scan.pdf'', Bytes ''truncated''), (''notes.txt'', Bytes ''Hello world'')])))
   \<and> fst (main_loop demo_lib [''notes.txt'']
            (demo_world [(''scan.pdf'', Bytes ''truncated''), (''notes.txt'', Bytes ''Hello world'')])) = None"
proof -
  let ?w = "demo_world [(''scan.pdf'', Bytes ''truncated''), (''notes.txt'', Bytes ''Hello world'')]"
  let ?w1 = "print ''Unsupported file type for notes.doc; supported: .pdf, .epub'' ?w"
  have ext: "lower (snd (splitext ''scan.pdf'')) = ''.pdf''"
    by (simp add: splitext_def lower_def lower_char_def)
  have pre: "main_loop demo_lib [''notes.doc''] ?w = (None, ?w1)"
    by (simp add: splitext_def lower_def lower_char_def)
  have fail: "pdf_first_image demo_lib (files ?w1 ''scan.pdf'') = Inl (LibError ''EOF marker not found'')"
    by (simp add: pdf_first_image_def demo_pdf_sel demo_world_def)
  have other: "lower (snd (splitext ''notes.txt'')) = ''.epub'' \<or> lower (snd (splitext ''notes.txt'')) = ''.txt''"
    by (simp add: splitext_notes lower_def lower_char_def)
  note run = pdf_failure_aborts_run [OF ext pre fail, of "[''notes.txt'']"]
  from run have a: "main_loop demo_lib ([''notes.doc''] @ ''scan.pdf'' # [''notes.txt'']) ?w
                      = (Some (LibError ''EOF marker not found''),
                         print (''Extracting cover photo from '' @ ''scan.pdf'' @ ''...'') ?w1)"
    by (rule conjunct1)
  from run other have b: "fst (main_loop demo_lib [''notes.txt''] ?w) = None"
    by blast
  show ?thesis
    using a b by (simp del: main_loop.simps)
qed

end
